theory Spec2Isabelle
  imports Main
begin

section \<open>Bundle number codec (src/lib/services/cut-orders.ts, lines 72-95)\<close>

text \<open>
  A stored bundle number is \<^verbatim>\<open>number | null\<close>: an integer column of the store, modelled
  as \<^typ>\<open>int option\<close> with \<open>None\<close> for \<^verbatim>\<open>null\<close>. \<^verbatim>\<open>Math.floor(value / 1000)\<close> and
  \<^verbatim>\<open>value % 1000\<close> are only evaluated for \<^verbatim>\<open>value >= 1000\<close>, where they agree with
  \<open>div\<close> and \<open>mod\<close> on \<^typ>\<open>int\<close>.
\<close>

definition BUNDLE_SPLIT_NUMBER_FACTOR :: int where
  "BUNDLE_SPLIT_NUMBER_FACTOR = 1000"

record BundleNumberInfo =
  base :: "int option"
  variant :: "int option"

definition decodeBundleNumber :: "int option \<Rightarrow> BundleNumberInfo" where
  "decodeBundleNumber v =
     (case v of
        None \<Rightarrow> \<lparr>base = None, variant = None\<rparr>
      | Some n \<Rightarrow>
          if n \<ge> BUNDLE_SPLIT_NUMBER_FACTOR
          then \<lparr>base = Some (n div BUNDLE_SPLIT_NUMBER_FACTOR),
                variant = Some (if n mod BUNDLE_SPLIT_NUMBER_FACTOR = 0 then 1
                                else n mod BUNDLE_SPLIT_NUMBER_FACTOR)\<rparr>
          else \<lparr>base = Some n, variant = Some 1\<rparr>)"

definition encodeBundleNumber :: "int \<Rightarrow> int \<Rightarrow> int" where
  "encodeBundleNumber b v = b * BUNDLE_SPLIT_NUMBER_FACTOR + v"

section \<open>Strings\<close>

text \<open>
  Strings are modelled as \<^typ>\<open>string\<close> over ASCII text. \<^verbatim>\<open>String.prototype.trim\<close> removes
  leading and trailing white space (tab, line feed, vertical tab, form feed, carriage
  return, space); \<^verbatim>\<open>toUpperCase\<close> maps \<open>a\<close>..\<open>z\<close> to \<open>A\<close>..\<open>Z\<close> and leaves every other
  character alone.
\<close>

definition isWhiteSpace :: "char \<Rightarrow> bool" where
  "isWhiteSpace c = (c \<in> {CHR 0x09, CHR 0x0A, CHR 0x0B, CHR 0x0C, CHR 0x0D, CHR 0x20})"

definition trim :: "string \<Rightarrow> string" where
  "trim s = rev (dropWhile isWhiteSpace (rev (dropWhile isWhiteSpace s)))"

definition upperChar :: "char \<Rightarrow> char" where
  "upperChar c =
     (let n = (of_char c :: nat) in if 97 \<le> n \<and> n \<le> 122 then char_of (n - 32) else c)"

definition toUpperCase :: "string \<Rightarrow> string" where
  "toUpperCase s = map upperChar s"

section \<open>The persistent store\<close>

text \<open>
  The store (Supabase) is an external collaborator: four tables, each a list of rows in
  insertion order. Row ids are opaque keys generated by the store and are modelled as
  \<^typ>\<open>nat\<close>; timestamps (\<^verbatim>\<open>creado_en\<close>, \<^verbatim>\<open>fecha_hora\<close>) are modelled by their epoch value
  (what \<^verbatim>\<open>new Date(s).getTime()\<close> returns), \<open>None\<close> for \<^verbatim>\<open>null\<close>. The primary key of each
  row record carries a prefix because \<open>id\<close> is taken in HOL.
\<close>

datatype BundleActionEnum = Mover | Asignar | Utilizar | Dividir

datatype BundleStatusEnum = Disponible | Asignado | Usado

definition bundleStatusByAction :: "BundleActionEnum \<Rightarrow> BundleStatusEnum option" where
  "bundleStatusByAction a =
     (case a of Asignar \<Rightarrow> Some Asignado | Utilizar \<Rightarrow> Some Usado | _ \<Rightarrow> None)"

definition DEFAULT_BUNDLE_STATUS :: BundleStatusEnum where
  "DEFAULT_BUNDLE_STATUS = Disponible"

record ubicacion_row =
  u_id :: nat
  codigo :: "string option"

record bulto_row =
  b_id :: nat
  orden_corte_id :: nat
  numero_bulto :: "int option"
  cantidad_laminas :: "int option"
  ubicacion_id :: "nat option"
  estado :: "BundleStatusEnum option"
  creado_en :: "int option"
  SSCC :: "string option"
  LUID :: "string option"
  num_bobina :: "string option"

record historial_row =
  h_id :: nat
  bulto_id :: nat
  accion :: "BundleActionEnum option"
  ubicacion_destino_id :: "nat option"
  numero_trabajo :: "string option"
  fecha_hora :: "int option"

record orden_row =
  o_id :: nat
  numero_orden :: string
  cantidad_bultos :: "int option"
  activo :: "bool option"

record store =
  ubicaciones :: "ubicacion_row list"
  bultos :: "bulto_row list"
  historial_bultos :: "historial_row list"
  ordenes_corte :: "orden_row list"

text \<open>
  Every request to the store can fail (the \<^verbatim>\<open>error\<close> field of its response). A run of an
  operation is parameterised by the set of call sites that fail in that run.
\<close>

datatype call =
    Split_FetchBundle | Split_FetchSiblings | Split_UpdateOriginal | Split_UpdateNumber
  | Split_Insert | Split_InsertNoId | Split_History
  | Act_FetchStates | Act_Update | Act_History
  | Loc_Fetch | Loc_Insert
  | Agg_FetchBundles | Agg_FetchOrderBundles nat | Agg_UpdateOrder nat

text \<open>One constructor per \<^verbatim>\<open>throw new Error(...)\<close> of the two exported operations.\<close>

datatype error =
    SheetsNotPositive | MissingIdentifiers | BundleReadFailed | WrongOrder | SheetsTooLarge
  | NoNumber | SiblingsReadFailed | OriginalUpdateFailed | NumberUpdateFailed
  | InsertFailed | InsertNoId | SplitHistoryFailed
  | EmptySelection | ValidateFetchFailed | NotAllAssigned | InvalidDestination
  | LocationsReadFailed | LocationsCreateFailed | LocationUnresolved
  | InvalidOrderNumber | UpdateFailed | HistoryFailed

text \<open>\<^verbatim>\<open>.eq("id", x).single()\<close>: the row when exactly one matches, an error otherwise.\<close>

definition select_single :: "bulto_row list \<Rightarrow> nat \<Rightarrow> bulto_row option" where
  "select_single rows i = (case filter (\<lambda>r. b_id r = i) rows of [r] \<Rightarrow> Some r | _ \<Rightarrow> None)"

text \<open>\<^verbatim>\<open>.update(f).eq("id", x)\<close> and \<^verbatim>\<open>.update(f).in("id", xs)\<close> on the table \<^verbatim>\<open>bultos\<close>.\<close>

definition update_bultos_eq :: "nat \<Rightarrow> (bulto_row \<Rightarrow> bulto_row) \<Rightarrow> store \<Rightarrow> store" where
  "update_bultos_eq i f db = db\<lparr>bultos := map (\<lambda>r. if b_id r = i then f r else r) (bultos db)\<rparr>"

definition update_bultos_in :: "nat list \<Rightarrow> (bulto_row \<Rightarrow> bulto_row) \<Rightarrow> store \<Rightarrow> store" where
  "update_bultos_in is f db =
     db\<lparr>bultos := map (\<lambda>r. if b_id r \<in> set is then f r else r) (bultos db)\<rparr>"

text \<open>The key the store gives an inserted row: one past the largest key of the table.\<close>

definition fresh_id :: "nat list \<Rightarrow> nat" where
  "fresh_id ks = Suc (fold max ks 0)"

section \<open>Split operation (cut-orders.ts, lines 438-599)\<close>

record BundleIdentifiersInput =
  sscc :: string
  luid :: string

text \<open>
  The quantity to split off is a JavaScript \<^verbatim>\<open>number\<close> that the caller supplies: an integer
  or \<^verbatim>\<open>NaN\<close> (what a text that is no number converts to). Every comparison with \<^verbatim>\<open>NaN\<close> is
  false and every difference with \<^verbatim>\<open>NaN\<close> is \<^verbatim>\<open>NaN\<close>; in the JSON body of a request \<^verbatim>\<open>NaN\<close>
  is written as \<^verbatim>\<open>null\<close>. Fractions are not modelled. The sheet count read from the store
  is an integer.
\<close>

datatype jsnumber = Num int | NaN

definition lessEq :: "jsnumber \<Rightarrow> jsnumber \<Rightarrow> bool" where
  "lessEq x y = (case (x, y) of (Num a, Num b) \<Rightarrow> a \<le> b | _ \<Rightarrow> False)"

definition greaterEq :: "jsnumber \<Rightarrow> jsnumber \<Rightarrow> bool" where
  "greaterEq x y = (case (x, y) of (Num a, Num b) \<Rightarrow> a \<ge> b | _ \<Rightarrow> False)"

definition minusNumber :: "jsnumber \<Rightarrow> jsnumber \<Rightarrow> jsnumber" where
  "minusNumber x y = (case (x, y) of (Num a, Num b) \<Rightarrow> Num (a - b) | _ \<Rightarrow> NaN)"

definition jsonNumber :: "jsnumber \<Rightarrow> int option" where
  "jsonNumber x = (case x of Num a \<Rightarrow> Some a | NaN \<Rightarrow> None)"

text \<open>
  Lines 451-494: the checks that precede every write. They read the bundle and return it
  with its sheet count and its decoded base number. \<^verbatim>\<open>!bundleBaseNumber\<close> holds for
  \<^verbatim>\<open>null\<close> and for \<open>0\<close>.
\<close>

definition split_checks ::
  "(call \<Rightarrow> bool) \<Rightarrow> nat \<Rightarrow> nat \<Rightarrow> jsnumber \<Rightarrow> BundleIdentifiersInput \<Rightarrow> BundleIdentifiersInput
     \<Rightarrow> store \<Rightarrow> error + (bulto_row \<times> int \<times> int)" where
  "split_checks F bundleId orderId sheets originalIdentifiers newBundleIdentifiers db =
     (if lessEq sheets (Num 0) then Inl SheetsNotPositive
      else if trim (sscc originalIdentifiers) = [] \<or> trim (luid originalIdentifiers) = []
              \<or> trim (sscc newBundleIdentifiers) = [] \<or> trim (luid newBundleIdentifiers) = []
      then Inl MissingIdentifiers
      else if F Split_FetchBundle then Inl BundleReadFailed
      else case select_single (bultos db) bundleId of
             None \<Rightarrow> Inl BundleReadFailed
           | Some bundle \<Rightarrow>
               if orden_corte_id bundle \<noteq> orderId then Inl WrongOrder
               else let currentSheets = (case cantidad_laminas bundle of None \<Rightarrow> 0 | Some n \<Rightarrow> n)
                 in if greaterEq sheets (Num currentSheets) then Inl SheetsTooLarge
                    else case base (decodeBundleNumber (numero_bulto bundle)) of
                           None \<Rightarrow> Inl NoNumber
                         | Some b \<Rightarrow> if b = 0 then Inl NoNumber
                                     else Inr (bundle, currentSheets, b))"

text \<open>Lines 496-516: the sibling group of base \<open>b\<close> in the order and the next variant.\<close>

definition relatedBundles :: "nat \<Rightarrow> int \<Rightarrow> store \<Rightarrow> bulto_row list" where
  "relatedBundles orderId b db =
     filter (\<lambda>item. base (decodeBundleNumber (numero_bulto item)) = Some b)
       (filter (\<lambda>r. orden_corte_id r = orderId) (bultos db))"

definition usedVariants :: "nat \<Rightarrow> int \<Rightarrow> store \<Rightarrow> int list" where
  "usedVariants orderId b db =
     concat (map (\<lambda>item. case variant (decodeBundleNumber (numero_bulto item)) of
                            None \<Rightarrow> [] | Some v \<Rightarrow> [v])
                 (relatedBundles orderId b db))"

definition nextVariant :: "nat \<Rightarrow> int \<Rightarrow> store \<Rightarrow> int" where
  "nextVariant orderId b db =
     (case usedVariants orderId b db of [] \<Rightarrow> 1 | v # vs \<Rightarrow> fold max vs v) + 1"

text \<open>
  Lines 517-598: the writes, one request after the other. Each failure returns the store
  as the requests made so far have left it. The payloads of the requests come first. The
  columns an insert does not name are filled by the store: the key, \<^verbatim>\<open>creado_en\<close> (the
  time of the insert) and \<^verbatim>\<open>num_bobina\<close> (null).
\<close>

definition originalPayload :: "jsnumber \<Rightarrow> BundleIdentifiersInput \<Rightarrow> bulto_row \<Rightarrow> bulto_row" where
  "originalPayload remainingSheets originalIdentifiers r =
     r\<lparr>cantidad_laminas := jsonNumber remainingSheets,
       SSCC := Some (trim (sscc originalIdentifiers)),
       LUID := Some (trim (luid originalIdentifiers))\<rparr>"

definition numberPayload :: "int \<Rightarrow> bulto_row \<Rightarrow> bulto_row" where
  "numberPayload b r = r\<lparr>numero_bulto := Some (encodeBundleNumber b 1)\<rparr>"

definition shouldNormalizeNumber :: "bulto_row \<Rightarrow> bool" where
  "shouldNormalizeNumber bundle =
     (case numero_bulto bundle of None \<Rightarrow> True | Some n \<Rightarrow> n < BUNDLE_SPLIT_NUMBER_FACTOR)"

definition newBundleRow ::
  "nat \<Rightarrow> int \<Rightarrow> nat \<Rightarrow> jsnumber \<Rightarrow> BundleIdentifiersInput \<Rightarrow> bulto_row \<Rightarrow> int \<Rightarrow> int
     \<Rightarrow> bulto_row" where
  "newBundleRow newBundleId now orderId sheets newBundleIdentifiers bundle b nextV =
     \<lparr>b_id = newBundleId, orden_corte_id = orderId,
      numero_bulto = Some (encodeBundleNumber b nextV),
      cantidad_laminas = jsonNumber sheets,
      ubicacion_id = ubicacion_id bundle,
      estado = Some (case estado bundle of None \<Rightarrow> DEFAULT_BUNDLE_STATUS | Some s \<Rightarrow> s),
      creado_en = Some now,
      SSCC = Some (trim (sscc newBundleIdentifiers)),
      LUID = Some (trim (luid newBundleIdentifiers)),
      num_bobina = None\<rparr>"

definition splitHistoryPayload :: "nat \<Rightarrow> int \<Rightarrow> bulto_row \<Rightarrow> nat \<Rightarrow> historial_row list" where
  "splitHistoryPayload k now bundle newBundleId =
     [\<lparr>h_id = k, bulto_id = b_id bundle, accion = Some Dividir,
       ubicacion_destino_id = ubicacion_id bundle, numero_trabajo = None,
       fecha_hora = Some now\<rparr>,
      \<lparr>h_id = Suc k, bulto_id = newBundleId, accion = Some Dividir,
       ubicacion_destino_id = ubicacion_id bundle, numero_trabajo = None,
       fecha_hora = Some now\<rparr>]"

definition split_writes ::
  "(call \<Rightarrow> bool) \<Rightarrow> int \<Rightarrow> nat \<Rightarrow> nat \<Rightarrow> jsnumber \<Rightarrow> BundleIdentifiersInput
     \<Rightarrow> BundleIdentifiersInput \<Rightarrow> bulto_row \<Rightarrow> int \<Rightarrow> int \<Rightarrow> store \<Rightarrow> (error + unit) \<times> store" where
  "split_writes F now bundleId orderId sheets originalIdentifiers newBundleIdentifiers
       bundle currentSheets b db =
     (if F Split_FetchSiblings then (Inl SiblingsReadFailed, db)
      else
        let nextV = nextVariant orderId b db;
            remainingSheets = minusNumber (Num currentSheets) sheets
        in if F Split_UpdateOriginal then (Inl OriginalUpdateFailed, db)
           else
             let db1 = update_bultos_eq bundleId
                         (originalPayload remainingSheets originalIdentifiers) db
             in if shouldNormalizeNumber bundle \<and> F Split_UpdateNumber
                then (Inl NumberUpdateFailed, db1)
                else
                  let db2 = (if shouldNormalizeNumber bundle
                             then update_bultos_eq bundleId (numberPayload b) db1
                             else db1)
                  in if F Split_Insert then (Inl InsertFailed, db2)
                     else
                       let newBundleId = fresh_id (map b_id (bultos db2));
                           db3 = db2\<lparr>bultos := bultos db2 @
                                   [newBundleRow newBundleId now orderId sheets
                                      newBundleIdentifiers bundle b nextV]\<rparr>
                       in if F Split_InsertNoId then (Inl InsertNoId, db3)
                          else if F Split_History then (Inl SplitHistoryFailed, db3)
                          else (Inr (),
                                db3\<lparr>historial_bultos := historial_bultos db3 @
                                  splitHistoryPayload (fresh_id (map h_id (historial_bultos db3)))
                                    now bundle newBundleId\<rparr>))"

definition splitBundle ::
  "(call \<Rightarrow> bool) \<Rightarrow> int \<Rightarrow> nat \<Rightarrow> nat \<Rightarrow> jsnumber \<Rightarrow> BundleIdentifiersInput
     \<Rightarrow> BundleIdentifiersInput \<Rightarrow> store \<Rightarrow> (error + unit) \<times> store" where
  "splitBundle F now bundleId orderId sheets originalIdentifiers newBundleIdentifiers db =
     (case split_checks F bundleId orderId sheets originalIdentifiers newBundleIdentifiers db of
        Inl e \<Rightarrow> (Inl e, db)
      | Inr (bundle, currentSheets, b) \<Rightarrow>
          split_writes F now bundleId orderId sheets originalIdentifiers newBundleIdentifiers
            bundle currentSheets b db)"

section \<open>Locations (src/constants/locations.ts; cut-orders.ts, lines 282-332)\<close>

definition LOCATION_CODES :: "string list" where
  "LOCATION_CODES = [''C1'', ''C2'', ''C3'', ''C4'', ''C5'', ''C6'', ''C7'', ''C8'', ''C9'', ''C10'']"

definition isValidLocationCode :: "string \<Rightarrow> bool" where
  "isValidLocationCode v = (v \<in> set LOCATION_CODES)"

text \<open>
  \<^verbatim>\<open>normalizeLocationCode(value?: string)\<close>: \<open>None\<close> stands for \<^verbatim>\<open>undefined\<close> and, as the
  result, for \<^verbatim>\<open>null\<close>. \<^verbatim>\<open>!value\<close> holds for \<^verbatim>\<open>undefined\<close> and for the empty string.
\<close>

definition normalizeLocationCode :: "string option \<Rightarrow> string option" where
  "normalizeLocationCode v =
     (case v of
        None \<Rightarrow> None
      | Some s \<Rightarrow>
          if s = [] then None
          else let normalized = toUpperCase (trim s)
               in if normalized = [] then None
                  else if isValidLocationCode normalized then Some normalized
                  else None)"

text \<open>\<^verbatim>\<open>Array.from(new Set(codes))\<close>: the first occurrence of each element, in order.\<close>

definition uniqueOf :: "'a list \<Rightarrow> 'a list" where
  "uniqueOf xs = rev (remdups (rev xs))"

text \<open>\<^verbatim>\<open>rows.forEach(l => { if (l.codigo) map.set(l.codigo, l.id) })\<close>\<close>

definition setLocations :: "ubicacion_row list \<Rightarrow> (string \<rightharpoonup> nat) \<Rightarrow> (string \<rightharpoonup> nat)" where
  "setLocations rows m =
     fold (\<lambda>l m. case codigo l of None \<Rightarrow> m
                  | Some c \<Rightarrow> if c = [] then m else m(c \<mapsto> u_id l)) rows m"

text \<open>
  \<^verbatim>\<open>ensureLocationMap\<close> (lines 292-332) is get-or-create: it reads the locations with the
  given codes and inserts one row for every code that has none.
\<close>

definition ensureLocationMap ::
  "(call \<Rightarrow> bool) \<Rightarrow> string list \<Rightarrow> store \<Rightarrow> (error + (string \<rightharpoonup> nat)) \<times> store" where
  "ensureLocationMap F codes db =
     (if codes = [] then (Inr Map.empty, db)
      else
        let uniqueCodes = uniqueOf codes
        in if F Loc_Fetch then (Inl LocationsReadFailed, db)
           else
             let existing = filter (\<lambda>l. case codigo l of None \<Rightarrow> False
                                         | Some c \<Rightarrow> c \<in> set uniqueCodes) (ubicaciones db);
                 m = setLocations existing Map.empty;
                 missing = filter (\<lambda>c. m c = None) uniqueCodes
             in if missing = [] then (Inr m, db)
                else if F Loc_Insert then (Inl LocationsCreateFailed, db)
                else
                  let k = fresh_id (map u_id (ubicaciones db));
                      inserted = map (\<lambda>(i, c). \<lparr>u_id = k + i, codigo = Some c\<rparr>)
                                   (enumerate 0 missing)
                  in (Inr (setLocations inserted m),
                      db\<lparr>ubicaciones := ubicaciones db @ inserted\<rparr>))"

section \<open>Order status aggregator (cut-orders.ts, lines 610-661)\<close>

text \<open>
  The body of the loop over the orders of the affected bundles: a failed read, or an order
  without bundles, is skipped; a failed update is logged and nothing else happens.
\<close>

definition checkOrder :: "(call \<Rightarrow> bool) \<Rightarrow> nat \<Rightarrow> store \<Rightarrow> store" where
  "checkOrder F orderId db =
     (if F (Agg_FetchOrderBundles orderId) then db
      else
        let orderBundles = filter (\<lambda>r. orden_corte_id r = orderId) (bultos db)
        in if orderBundles = [] then db
           else
             let allUsed = list_all (\<lambda>bundle. estado bundle = Some Usado) orderBundles;
                 hasAvailableOrAssigned =
                   list_ex (\<lambda>bundle. estado bundle = Some Disponible
                                     \<or> estado bundle = Some Asignado) orderBundles
             in if allUsed \<and> \<not> hasAvailableOrAssigned
                then (if F (Agg_UpdateOrder orderId) then db
                      else db\<lparr>ordenes_corte :=
                             map (\<lambda>ord. if o_id ord = orderId then ord\<lparr>activo := Some False\<rparr>
                                        else ord) (ordenes_corte db)\<rparr>)
                else db)"

definition checkAndUpdateOrderStatus :: "(call \<Rightarrow> bool) \<Rightarrow> nat list \<Rightarrow> store \<Rightarrow> store" where
  "checkAndUpdateOrderStatus F bundleIds db =
     (if F Agg_FetchBundles then db
      else
        let bundlesWithOrder = filter (\<lambda>r. b_id r \<in> set bundleIds) (bultos db);
            uniqueOrderIds = uniqueOf (map orden_corte_id bundlesWithOrder)
        in fold (checkOrder F) uniqueOrderIds db)"

section \<open>Bundle actions (cut-orders.ts, lines 663-750)\<close>

text \<open>Lines 673-691: the check of the action \<^verbatim>\<open>utilizar\<close>.\<close>

definition validateUse :: "(call \<Rightarrow> bool) \<Rightarrow> nat list \<Rightarrow> store \<Rightarrow> error + unit" where
  "validateUse F bundleIds db =
     (if F Act_FetchStates then Inl ValidateFetchFailed
      else
        let bundlesInfo = filter (\<lambda>r. b_id r \<in> set bundleIds) (bultos db);
            invalid = filter (\<lambda>bundle. estado bundle \<noteq> Some Asignado) bundlesInfo
        in if length invalid > 0 then Inl NotAllAssigned else Inr ())"

text \<open>Lines 694-704: the destination of the action \<^verbatim>\<open>mover\<close>.\<close>

definition resolveDestination ::
  "(call \<Rightarrow> bool) \<Rightarrow> string option \<Rightarrow> store \<Rightarrow> (error + nat) \<times> store" where
  "resolveDestination F destinationCode db =
     (case normalizeLocationCode destinationCode of
        None \<Rightarrow> (Inl InvalidDestination, db)
      | Some normalizedDestination \<Rightarrow>
          (case ensureLocationMap F [normalizedDestination] db of
             (Inl e, db1) \<Rightarrow> (Inl e, db1)
           | (Inr locationMap, db1) \<Rightarrow>
               (case locationMap normalizedDestination of
                  None \<Rightarrow> (Inl LocationUnresolved, db1)
                | Some locationId \<Rightarrow> (Inr locationId, db1))))"

text \<open>Lines 712-719: the fields written to each targeted bundle.\<close>

definition updatePayload :: "nat option \<Rightarrow> BundleStatusEnum option \<Rightarrow> bulto_row \<Rightarrow> bulto_row" where
  "updatePayload locationId nextStatus r =
     (let r1 = (case locationId of None \<Rightarrow> r | Some l \<Rightarrow> r\<lparr>ubicacion_id := Some l\<rparr>)
      in case nextStatus of None \<Rightarrow> r1 | Some s \<Rightarrow> r1\<lparr>estado := Some s\<rparr>)"

text \<open>Lines 732-738: one history entry per target id.\<close>

definition actionHistoryPayload ::
  "nat \<Rightarrow> int \<Rightarrow> nat list \<Rightarrow> BundleActionEnum \<Rightarrow> nat option \<Rightarrow> string option
     \<Rightarrow> historial_row list" where
  "actionHistoryPayload k now bundleIds action locationId historyWorkOrder =
     map (\<lambda>(i, bundleId).
            \<lparr>h_id = k + i, bulto_id = bundleId, accion = Some action,
             ubicacion_destino_id = locationId,
             numero_trabajo = (if action = Asignar then historyWorkOrder else None),
             fecha_hora = Some now\<rparr>)
         (enumerate 0 bundleIds)"

text \<open>Lines 706-749: the writes of an action, once the location is resolved.\<close>

definition applyWrites ::
  "(call \<Rightarrow> bool) \<Rightarrow> int \<Rightarrow> nat list \<Rightarrow> BundleActionEnum \<Rightarrow> nat option \<Rightarrow> string option
     \<Rightarrow> store \<Rightarrow> (error + unit) \<times> store" where
  "applyWrites F now bundleIds action locationId orderNumber db =
     (let normalizedOrder = (case orderNumber of None \<Rightarrow> [] | Some s \<Rightarrow> trim s);
          historyWorkOrder = (if normalizedOrder = [] then None else Some normalizedOrder)
      in if action = Asignar \<and> historyWorkOrder = None then (Inl InvalidOrderNumber, db)
         else
           let nextStatus = bundleStatusByAction action;
               hasPayload = (locationId \<noteq> None \<or> nextStatus \<noteq> None)
           in if hasPayload \<and> F Act_Update then (Inl UpdateFailed, db)
              else
                let db1 = (if hasPayload
                           then update_bultos_in bundleIds (updatePayload locationId nextStatus) db
                           else db)
                in if F Act_History then (Inl HistoryFailed, db1)
                   else
                     let db2 = db1\<lparr>historial_bultos := historial_bultos db1 @
                                 actionHistoryPayload (fresh_id (map h_id (historial_bultos db1)))
                                   now bundleIds action locationId historyWorkOrder\<rparr>
                     in (Inr (), checkAndUpdateOrderStatus F bundleIds db2))"

definition applyBundleAction ::
  "(call \<Rightarrow> bool) \<Rightarrow> int \<Rightarrow> nat list \<Rightarrow> BundleActionEnum \<Rightarrow> string option \<Rightarrow> string option
     \<Rightarrow> store \<Rightarrow> (error + unit) \<times> store" where
  "applyBundleAction F now bundleIds action destinationCode orderNumber db =
     (if bundleIds = [] then (Inl EmptySelection, db)
      else
        case (if action = Utilizar then validateUse F bundleIds db else Inr ()) of
          Inl e \<Rightarrow> (Inl e, db)
        | Inr _ \<Rightarrow>
            if action = Mover
            then (case resolveDestination F destinationCode db of
                    (Inl e, db1) \<Rightarrow> (Inl e, db1)
                  | (Inr locationId, db1) \<Rightarrow>
                      applyWrites F now bundleIds action (Some locationId) orderNumber db1)
            else applyWrites F now bundleIds action None orderNumber db)"

section \<open>Sequences of operations\<close>

text \<open>A request to the core, with the failures of its run and the time of its run.\<close>

datatype request =
    Action "call \<Rightarrow> bool" int "nat list" BundleActionEnum "string option" "string option"
  | Split "call \<Rightarrow> bool" int nat nat jsnumber BundleIdentifiersInput BundleIdentifiersInput

fun perform :: "request \<Rightarrow> store \<Rightarrow> store" where
  "perform (Action F now bundleIds action destinationCode orderNumber) db =
     snd (applyBundleAction F now bundleIds action destinationCode orderNumber db)"
| "perform (Split F now bundleId orderId sheets originalIdentifiers newBundleIdentifiers) db =
     snd (splitBundle F now bundleId orderId sheets originalIdentifiers newBundleIdentifiers db)"

definition performAll :: "request list \<Rightarrow> store \<Rightarrow> store" where
  "performAll reqs db = fold perform reqs db"

text \<open>
  A run of \<open>n\<close> successful splits in sequence, each of a bundle of the sibling group of base
  \<open>b\<close> in the order \<open>orderId\<close>.
\<close>

inductive group_splits :: "nat \<Rightarrow> int \<Rightarrow> store \<Rightarrow> nat \<Rightarrow> store \<Rightarrow> bool"
  for orderId :: nat and b :: int where
  none: "group_splits orderId b db 0 db"
| more: "group_splits orderId b db n db1 \<Longrightarrow>
         select_single (bultos db1) bundleId = Some bundle \<Longrightarrow>
         base (decodeBundleNumber (numero_bulto bundle)) = Some b \<Longrightarrow>
         splitBundle F now bundleId orderId k oi ni db1 = (Inr (), db2) \<Longrightarrow>
         group_splits orderId b db (Suc n) db2"

section \<open>Notions used in the statements\<close>

text \<open>The sheet count of a bundle row: \<^verbatim>\<open>bundle.cantidad_laminas ?? 0\<close>.\<close>

definition currentSheets :: "bulto_row \<Rightarrow> int" where
  "currentSheets bundle = (case cantidad_laminas bundle of None \<Rightarrow> 0 | Some n \<Rightarrow> n)"

text \<open>
  The rows of the table \<^verbatim>\<open>bultos\<close> once both writes of a split are done: the original
  with its payloads applied, and the new bundle at the end.
\<close>

definition split_result_rows ::
  "int \<Rightarrow> nat \<Rightarrow> nat \<Rightarrow> jsnumber \<Rightarrow> BundleIdentifiersInput \<Rightarrow> BundleIdentifiersInput
     \<Rightarrow> bulto_row \<Rightarrow> int \<Rightarrow> int \<Rightarrow> store \<Rightarrow> bulto_row list" where
  "split_result_rows now bundleId orderId sheets oi ni bundle cs b db =
     map (\<lambda>r. if b_id r = bundleId
               then (if shouldNormalizeNumber bundle then numberPayload b else (\<lambda>r. r))
                      (originalPayload (minusNumber (Num cs) sheets) oi r)
               else r) (bultos db)
     @ [newBundleRow (fresh_id (map b_id (bultos db))) now orderId sheets ni bundle b
          (nextVariant orderId b db)]"

text \<open>The variants of a group, as a function of the rows.\<close>

definition variants_of :: "nat \<Rightarrow> int \<Rightarrow> bulto_row list \<Rightarrow> int list" where
  "variants_of orderId b rows =
     concat (map (\<lambda>item. case variant (decodeBundleNumber (numero_bulto item)) of
                            None \<Rightarrow> [] | Some v \<Rightarrow> [v])
       (filter (\<lambda>item. base (decodeBundleNumber (numero_bulto item)) = Some b)
          (filter (\<lambda>r. orden_corte_id r = orderId) rows)))"

text \<open>
  The condition of the aggregator in the words of the specification: every bundle of the
  order is used and none is available or assigned.
\<close>

definition allBundlesUsed :: "store \<Rightarrow> nat \<Rightarrow> bool" where
  "allBundlesUsed db oid =
     ((\<forall>r \<in> set (bultos db). orden_corte_id r = oid \<longrightarrow> estado r = Some Usado)
      \<and> \<not> (\<exists>r \<in> set (bultos db). orden_corte_id r = oid
                \<and> (estado r = Some Disponible \<or> estado r = Some Asignado)))"

text \<open>
  The orders the aggregator reaches in a run: those that own one of the affected bundles,
  when none of the requests made for the order fails.
\<close>

definition orderExamined :: "(call \<Rightarrow> bool) \<Rightarrow> nat list \<Rightarrow> store \<Rightarrow> nat \<Rightarrow> bool" where
  "orderExamined F bundleIds db oid =
     (\<not> F Agg_FetchBundles \<and> \<not> F (Agg_FetchOrderBundles oid) \<and> \<not> F (Agg_UpdateOrder oid)
      \<and> (\<exists>r \<in> set (bultos db). b_id r \<in> set bundleIds \<and> orden_corte_id r = oid))"

text \<open>The order rows with the orders that satisfy \<open>P\<close> switched to inactive.\<close>

definition deactivate :: "(nat \<Rightarrow> bool) \<Rightarrow> orden_row list \<Rightarrow> orden_row list" where
  "deactivate P ords = map (\<lambda>ord. if P (o_id ord) then ord\<lparr>activo := Some False\<rparr> else ord) ords"

text \<open>
  The condition under which one round of the aggregator's loop writes to an order, as the
  code computes it.
\<close>

definition orderCloses :: "(call \<Rightarrow> bool) \<Rightarrow> bulto_row list \<Rightarrow> nat \<Rightarrow> bool" where
  "orderCloses F rows oid =
     (\<not> F (Agg_FetchOrderBundles oid) \<and> \<not> F (Agg_UpdateOrder oid)
      \<and> filter (\<lambda>r. orden_corte_id r = oid) rows \<noteq> []
      \<and> list_all (\<lambda>r. estado r = Some Usado) (filter (\<lambda>r. orden_corte_id r = oid) rows)
      \<and> \<not> list_ex (\<lambda>r. estado r = Some Disponible \<or> estado r = Some Asignado)
             (filter (\<lambda>r. orden_corte_id r = oid) rows))"

text \<open>Between two stores, the order rows are the same but for orders switched to inactive.\<close>

definition onlyDeactivated :: "orden_row list \<Rightarrow> orden_row list \<Rightarrow> bool" where
  "onlyDeactivated ords ords' =
     list_all2 (\<lambda>ord ord'. ord' = ord \<or> ord' = ord\<lparr>activo := Some False\<rparr>) ords ords'"

section \<open>Example stores\<close>

text \<open>A run in which no request fails, and a run in which exactly one call site fails.\<close>

definition noFaults :: "call \<Rightarrow> bool" where
  "noFaults c = False"

definition failingAt :: "call \<Rightarrow> call \<Rightarrow> bool" where
  "failingAt c c' = (c' = c)"

text \<open>
  One order, number 1001, with its bundles at the location C1: a bundle row is given by
  its id, its stored number, its sheet count and its status.
\<close>

definition exampleRow :: "nat \<Rightarrow> int \<Rightarrow> int \<Rightarrow> BundleStatusEnum \<Rightarrow> bulto_row" where
  "exampleRow i n sheets st =
     \<lparr>b_id = i, orden_corte_id = 1, numero_bulto = Some n, cantidad_laminas = Some sheets,
      ubicacion_id = Some 1, estado = Some st, creado_en = Some 0,
      SSCC = None, LUID = None, num_bobina = None\<rparr>"

definition exampleStore :: "bulto_row list \<Rightarrow> store" where
  "exampleStore rows =
     \<lparr>ubicaciones = [\<lparr>u_id = 1, codigo = Some ''C1''\<rparr>],
      bultos = rows,
      historial_bultos = [],
      ordenes_corte = [\<lparr>o_id = 1, numero_orden = ''1001'', cantidad_bultos = Some 2,
                         activo = Some True\<rparr>]\<rparr>"

definition exampleIds :: "string \<Rightarrow> BundleIdentifiersInput" where
  "exampleIds s = \<lparr>sscc = s, luid = s\<rparr>"

text \<open>
  The order of the end-to-end scenario: two bundles of 100 and 50 sheets; then the store
  after splitting 40 sheets off bundle 1, and after splitting 10 more off the new bundle.
\<close>

definition storeA :: store where
  "storeA = exampleStore [exampleRow 1 1 100 Disponible, exampleRow 2 2 50 Disponible]"

definition storeA1 :: store where
  "storeA1 = snd (splitBundle noFaults 5 1 1 (Num 40) (exampleIds ''a'') (exampleIds ''b'') storeA)"

definition storeA2 :: store where
  "storeA2 = snd (splitBundle noFaults 6 3 1 (Num 10) (exampleIds ''c'') (exampleIds ''d'') storeA1)"

text \<open>A bundle that holds variant 999 of the group of base 7, and one with a negative number.\<close>

definition storeFull :: store where
  "storeFull = exampleStore [exampleRow 1 7999 10 Disponible]"

definition storeNegative :: store where
  "storeNegative = exampleStore [exampleRow 1 (- 5) 10 Disponible]"

text \<open>A bundle whose stored number is 0.\<close>

definition storeZero :: store where
  "storeZero = exampleStore [exampleRow 1 0 100 Disponible]"

text \<open>Orders with bundles in the states used, assigned, assigned and used, used, assigned.\<close>

definition storeB :: store where
  "storeB = exampleStore [exampleRow 1 1 100 Usado, exampleRow 2 2 50 Asignado,
                          exampleRow 3 3 50 Asignado]"

definition storeC :: store where
  "storeC = exampleStore [exampleRow 1 1 100 Usado, exampleRow 2 2 50 Usado,
                          exampleRow 3 3 50 Asignado]"

text \<open>An order with a single available bundle.\<close>

definition storeD :: store where
  "storeD = exampleStore [exampleRow 1 1 100 Disponible]"

section \<open>Projection of bundles (cut-orders.ts, lines 111-216)\<close>

text \<open>
  The rows of a bundle as \<^verbatim>\<open>fetchCutOrders\<close> selects them: the bundle row, its location and
  its history entries, each with its destination location (\<^verbatim>\<open>SupabaseBundle\<close>,
  \<^verbatim>\<open>SupabaseBundleHistory\<close>). The key \<^verbatim>\<open>id\<close> of a projected bundle is a string.
\<close>

record SupabaseBundleHistory =
  entry :: historial_row
  ubicacion_destino :: "ubicacion_row option"

record SupabaseBundle =
  bundle_key :: string
  row :: bulto_row
  ubicacion :: "ubicacion_row option"
  historial :: "SupabaseBundleHistory list option"

text \<open>
  \<^verbatim>\<open>BundleHistoryEntry\<close> and \<^verbatim>\<open>Bundle\<close> of \<^verbatim>\<open>@/types/cut-order\<close>. The locale formatting of a
  date is outside the model: \<^verbatim>\<open>date\<close> and \<^verbatim>\<open>createdAt\<close> keep the timestamp, \<open>None\<close> for
  the empty string. The fields \<^verbatim>\<open>id\<close>, \<^verbatim>\<open>sscc\<close>, \<^verbatim>\<open>luid\<close> and \<^verbatim>\<open>num_bobina\<close> carry a prefix
  because their names are taken.
\<close>

record BundleHistoryEntry =
  action :: string
  location :: string
  date :: "int option"

record Bundle =
  bundle_id :: string
  name :: string
  baseName :: string
  rawNumber :: "int option"
  createdAt :: "int option"
  currentLocation :: string
  sheets :: int
  workOrder :: string
  availability :: string
  status :: string
  bundle_sscc :: string
  bundle_luid :: string
  bundle_num_bobina :: string
  history :: "BundleHistoryEntry list"

text \<open>\<^verbatim>\<open>String(n)\<close> and \<^verbatim>\<open>`${n}`\<close> for an integer \<open>n\<close>: its decimal numeral.\<close>

fun digitsOf :: "nat \<Rightarrow> string" where
  "digitsOf n =
     (if n < 10 then [''0123456789'' ! n]
      else digitsOf (n div 10) @ [''0123456789'' ! (n mod 10)])"

definition numberToString :: "int \<Rightarrow> string" where
  "numberToString i = (if i < 0 then CHR ''-'' # digitsOf (nat (- i)) else digitsOf (nat i))"

definition bundleActionLabels :: "BundleActionEnum \<Rightarrow> string" where
  "bundleActionLabels a =
     (case a of Mover \<Rightarrow> ''Mover'' | Asignar \<Rightarrow> ''Asignar'' | Utilizar \<Rightarrow> ''Utilizar''
      | Dividir \<Rightarrow> ''Dividir'')"

text \<open>The pair \<^verbatim>\<open>{ badge, availability }\<close> of a status.\<close>

definition bundleStatusLabels :: "BundleStatusEnum \<Rightarrow> string \<times> string" where
  "bundleStatusLabels s =
     (case s of Disponible \<Rightarrow> (''Disponible'', ''Disponible'')
      | Asignado \<Rightarrow> (''Asignado'', ''Asignado'')
      | Usado \<Rightarrow> (''Utilizado'', ''Utilizado''))"

text \<open>The comparator of both sorts: the timestamp, 0 when there is none.\<close>

definition timeOf :: "int option \<Rightarrow> int" where
  "timeOf t = (case t of None \<Rightarrow> 0 | Some v \<Rightarrow> v)"

text \<open>
  \<^verbatim>\<open>history.sort((a, b) => dateA - dateB)\<close>: a stable sort by timestamp, which sorts the
  array it is called on in place.
\<close>

definition sortHistory :: "SupabaseBundleHistory list \<Rightarrow> SupabaseBundleHistory list" where
  "sortHistory h = sort_key (\<lambda>e. timeOf (fecha_hora (entry e))) h"

definition historyEntry :: "SupabaseBundleHistory \<Rightarrow> BundleHistoryEntry" where
  "historyEntry e =
     \<lparr>action = (case accion (entry e) of
                  None \<Rightarrow> ''Actualizaci'' @ [CHR 0xC3, CHR 0xB3] @ ''n''
                | Some a \<Rightarrow> bundleActionLabels a),
      location = (if accion (entry e) = Some Asignar
                  then (case numero_trabajo (entry e) of None \<Rightarrow> ''-'' | Some w \<Rightarrow> w)
                  else (case ubicacion_destino e of
                          None \<Rightarrow> ''-''
                        | Some l \<Rightarrow> (case codigo l of None \<Rightarrow> ''-'' | Some c \<Rightarrow> c))),
      date = fecha_hora (entry e)\<rparr>"

definition normalizeHistory :: "SupabaseBundleHistory list option \<Rightarrow> BundleHistoryEntry list" where
  "normalizeHistory h = (case h of None \<Rightarrow> [] | Some es \<Rightarrow> map historyEntry (sortHistory es))"

text \<open>
  \<^verbatim>\<open>entry.numero_trabajo && entry.numero_trabajo.trim().length > 0\<close>
\<close>

definition hasWorkOrder :: "SupabaseBundleHistory \<Rightarrow> bool" where
  "hasWorkOrder e =
     (case numero_trabajo (entry e) of None \<Rightarrow> False | Some w \<Rightarrow> w \<noteq> [] \<and> length (trim w) > 0)"

text \<open>
  \<^verbatim>\<open>mapBundle\<close> (lines 137-167). \<^verbatim>\<open>normalizeHistory(rawHistory)\<close> sorts \<^verbatim>\<open>rawHistory\<close> itself,
  so the search for the last work order runs over the sorted entries.
\<close>

definition mapBundle :: "SupabaseBundle \<Rightarrow> Bundle" where
  "mapBundle bundle =
     (let numberInfo = decodeBundleNumber (numero_bulto (row bundle));
          baseNumber = base numberInfo;
          copied = (case historial bundle of None \<Rightarrow> [] | Some es \<Rightarrow> es);
          history = normalizeHistory (Some copied);
          rawHistory = sortHistory copied;
          lastWorkOrderEntry = find hasWorkOrder (rev rawHistory);
          latestWorkOrder =
            (if estado (row bundle) = Some Disponible then ''Sin orden''
             else (case lastWorkOrderEntry of
                     None \<Rightarrow> ''Sin orden''
                   | Some e \<Rightarrow> (case numero_trabajo (entry e) of
                                  None \<Rightarrow> ''Sin orden'' | Some w \<Rightarrow> w)));
          statusInfo = map_option bundleStatusLabels (estado (row bundle));
          baseName = (case baseNumber of
                        None \<Rightarrow> ''Bulto sin n'' @ [CHR 0xC3, CHR 0xBA] @ ''mero''
                      | Some n \<Rightarrow> if n = 0 then ''Bulto sin n'' @ [CHR 0xC3, CHR 0xBA] @ ''mero''
                                  else ''Bulto #'' @ numberToString n)
      in \<lparr>bundle_id = bundle_key bundle,
          name = baseName,
          baseName = baseName,
          rawNumber = baseNumber,
          createdAt = creado_en (row bundle),
          currentLocation = (case ubicacion bundle of
                               None \<Rightarrow> ''Sin ubicaci'' @ [CHR 0xC3, CHR 0xB3] @ ''n''
                             | Some l \<Rightarrow> (case codigo l of
                                  None \<Rightarrow> ''Sin ubicaci'' @ [CHR 0xC3, CHR 0xB3] @ ''n''
                                | Some c \<Rightarrow> c)),
          sheets = (case cantidad_laminas (row bundle) of None \<Rightarrow> 0 | Some n \<Rightarrow> n),
          workOrder = latestWorkOrder,
          availability = (case statusInfo of None \<Rightarrow> ''Sin estado'' | Some (b, a) \<Rightarrow> a),
          status = (case statusInfo of None \<Rightarrow> ''Sin estado'' | Some (b, a) \<Rightarrow> b),
          bundle_sscc = (case SSCC (row bundle) of None \<Rightarrow> [] | Some s \<Rightarrow> s),
          bundle_luid = (case LUID (row bundle) of None \<Rightarrow> [] | Some s \<Rightarrow> s),
          bundle_num_bobina = (case num_bobina (row bundle) of None \<Rightarrow> [] | Some s \<Rightarrow> s),
          history = history\<rparr>)"

text \<open>
  \<^verbatim>\<open>applyBundleDisplayNames\<close> (lines 192-216). The \<^verbatim>\<open>Map\<close> of groups keeps its keys in
  insertion order; a group holds the bundles by reference, here by their index in the
  array, and the renaming updates the array at that index.
\<close>

definition groupKey :: "Bundle \<Rightarrow> string" where
  "groupKey b = (case rawNumber b of Some n \<Rightarrow> numberToString n | None \<Rightarrow> bundle_id b)"

fun addToGroups :: "(string \<times> nat list) list \<Rightarrow> string \<Rightarrow> nat \<Rightarrow> (string \<times> nat list) list" where
  "addToGroups [] k i = [(k, [i])]"
| "addToGroups ((k', g) # gs) k i =
     (if k' = k then (k', g @ [i]) # gs else (k', g) # addToGroups gs k i)"

definition buildGroups :: "Bundle list \<Rightarrow> (string \<times> nat list) list" where
  "buildGroups bundles =
     fold (\<lambda>i gs. addToGroups gs (groupKey (bundles ! i)) i) [0..<length bundles] []"

definition renameGroup :: "nat list \<Rightarrow> Bundle list \<Rightarrow> Bundle list" where
  "renameGroup grp bundles =
     (if length grp \<le> 1 then bundles
      else fold (\<lambda>(index, i) bs.
                   bs[i := (bs ! i)\<lparr>name := baseName (bs ! i) @ '' - ''
                                         @ numberToString (int index + 1)\<rparr>])
             (enumerate 0 (sort_key (\<lambda>i. timeOf (createdAt (bundles ! i))) grp))
             bundles)"

definition applyBundleDisplayNames :: "Bundle list \<Rightarrow> Bundle list" where
  "applyBundleDisplayNames bundles =
     fold (\<lambda>(k, grp) bs. renameGroup grp bs) (buildGroups bundles) bundles"

section \<open>Example bundles\<close>

text \<open>
  A projected bundle given by its id, its stored number and its creation time; a history
  entry given by its action, its work-order number and its time; and the joined rows of
  bundle 1 with a status and a history.
\<close>

definition exampleBundle :: "string \<Rightarrow> int option \<Rightarrow> int \<Rightarrow> Bundle" where
  "exampleBundle i n t =
     mapBundle \<lparr>bundle_key = i,
                row = (exampleRow 0 0 10 Disponible)\<lparr>numero_bulto := n, creado_en := Some t\<rparr>,
                ubicacion = None, historial = None\<rparr>"

definition historyRow :: "BundleActionEnum \<Rightarrow> string option \<Rightarrow> int \<Rightarrow> SupabaseBundleHistory" where
  "historyRow a w t =
     \<lparr>entry = \<lparr>h_id = 0, bulto_id = 1, accion = Some a, ubicacion_destino_id = None,
                numero_trabajo = w, fecha_hora = Some t\<rparr>,
      ubicacion_destino = None\<rparr>"

definition exampleJoined :: "BundleStatusEnum \<Rightarrow> SupabaseBundleHistory list \<Rightarrow> SupabaseBundle" where
  "exampleJoined st h =
     \<lparr>bundle_key = ''1'', row = exampleRow 1 1 100 st, ubicacion = None, historial = Some h\<rparr>"

section \<open>Codec properties\<close>

lemma decode_encode:
  assumes "1 \<le> b" and "1 \<le> v" and "v \<le> 999"
  shows "decodeBundleNumber (Some (encodeBundleNumber b v)) = \<lparr>base = Some b, variant = Some v\<rparr>"
proof -
  have ge: "b * 1000 + v \<ge> 1000" using assms by linarith
  have d: "(b * 1000 + v) div 1000 = b" using assms by simp
  have m: "(b * 1000 + v) mod 1000 = v" using assms by simp
  show ?thesis
    using ge d m assms
    by (simp add: decodeBundleNumber_def encodeBundleNumber_def BUNDLE_SPLIT_NUMBER_FACTOR_def)
qed

text \<open>
  Claim C7 (codec round-trip): for every base in [1, 998] and every variant in [1, 998],
  decoding the encoding of (base, variant) returns exactly (base, variant).
\<close>

theorem codec_round_trip:
  assumes "1 \<le> b" and "b \<le> 998" and "1 \<le> v" and "v \<le> 998"
  shows "decodeBundleNumber (Some (encodeBundleNumber b v)) = \<lparr>base = Some b, variant = Some v\<rparr>"
  using assms by (intro decode_encode) simp_all

theorem codec_round_trip_witness:
  "decodeBundleNumber (Some (encodeBundleNumber 7 2)) = \<lparr>base = Some 7, variant = Some 2\<rparr>
   \<and> encodeBundleNumber 7 2 = 7002"
  using codec_round_trip [of 7 2] by (simp add: encodeBundleNumber_def BUNDLE_SPLIT_NUMBER_FACTOR_def)

section \<open>The store and the split, step by step\<close>

lemma select_single_filter:
  "select_single rows i = Some r \<longleftrightarrow> filter (\<lambda>r. b_id r = i) rows = [r]"
  by (auto simp: select_single_def split: list.splits)

lemma select_single_map:
  assumes "\<And>r. b_id (f r) = b_id r"
  shows "select_single (map (\<lambda>r. if b_id r = i then f r else r) rows) i
       = map_option f (select_single rows i)"
proof -
  have "filter (\<lambda>r. b_id r = i) (map (\<lambda>r. if b_id r = i then f r else r) rows)
      = map f (filter (\<lambda>r. b_id r = i) rows)"
    using assms by (induction rows) auto
  then show ?thesis
    by (auto simp: select_single_def split: list.splits)
qed

lemma fold_max_ge: "(m::nat) \<le> fold max ks m"
  by (induction ks arbitrary: m) (auto intro: order_trans[OF max.cobounded2])

lemma fold_max_mem: "(k::nat) \<in> set ks \<Longrightarrow> k \<le> fold max ks m"
proof (induction ks arbitrary: m)
  case Nil
  then show ?case by simp
next
  case (Cons a ks)
  show ?case
  proof (cases "k = a")
    case True
    have "max a m \<le> fold max ks (max a m)" by (rule fold_max_ge)
    with True show ?thesis by simp
  next
    case False
    with Cons show ?thesis by simp
  qed
qed

lemma fresh_id_fresh: "fresh_id ks \<notin> set ks"
proof
  assume "fresh_id ks \<in> set ks"
  then have "fresh_id ks \<le> fold max ks 0" by (rule fold_max_mem)
  then show False by (simp add: fresh_id_def)
qed

lemma originalPayload_fields [simp]:
  "b_id (originalPayload n oi r) = b_id r"
  "orden_corte_id (originalPayload n oi r) = orden_corte_id r"
  "numero_bulto (originalPayload n oi r) = numero_bulto r"
  "cantidad_laminas (originalPayload n oi r) = jsonNumber n"
  "estado (originalPayload n oi r) = estado r"
  "ubicacion_id (originalPayload n oi r) = ubicacion_id r"
  by (simp_all add: originalPayload_def)

lemma numberPayload_fields [simp]:
  "b_id (numberPayload b r) = b_id r"
  "orden_corte_id (numberPayload b r) = orden_corte_id r"
  "numero_bulto (numberPayload b r) = Some (encodeBundleNumber b 1)"
  "cantidad_laminas (numberPayload b r) = cantidad_laminas r"
  "estado (numberPayload b r) = estado r"
  "ubicacion_id (numberPayload b r) = ubicacion_id r"
  by (simp_all add: numberPayload_def)

lemma newBundleRow_fields [simp]:
  "b_id (newBundleRow i now orderId qty ni bundle b v) = i"
  "orden_corte_id (newBundleRow i now orderId qty ni bundle b v) = orderId"
  "numero_bulto (newBundleRow i now orderId qty ni bundle b v) = Some (encodeBundleNumber b v)"
  "cantidad_laminas (newBundleRow i now orderId qty ni bundle b v) = jsonNumber qty"
  "ubicacion_id (newBundleRow i now orderId qty ni bundle b v) = ubicacion_id bundle"
  "estado (newBundleRow i now orderId qty ni bundle b v)
     = Some (case estado bundle of None \<Rightarrow> DEFAULT_BUNDLE_STATUS | Some s \<Rightarrow> s)"
  by (simp_all add: newBundleRow_def)

lemma map_b_id_update:
  assumes "\<And>r. b_id (f r) = b_id r"
  shows "map b_id (map (\<lambda>r. if b_id r = i then f r else r) rows) = map b_id rows"
  using assms by (induction rows) auto

lemma bultos_update_eq [simp]:
  "bultos (update_bultos_eq i f db) = map (\<lambda>r. if b_id r = i then f r else r) (bultos db)"
  "ordenes_corte (update_bultos_eq i f db) = ordenes_corte db"
  "ubicaciones (update_bultos_eq i f db) = ubicaciones db"
  "historial_bultos (update_bultos_eq i f db) = historial_bultos db"
  by (simp_all add: update_bultos_eq_def)

lemma split_writes_Inr:
  assumes "split_writes F now bundleId orderId qty oi ni bundle cs b db = (Inr (), db')"
  shows "bultos db' = split_result_rows now bundleId orderId qty oi ni bundle cs b db"
    and "ordenes_corte db' = ordenes_corte db" and "ubicaciones db' = ubicaciones db"
    and "historial_bultos db' = historial_bultos db @
           splitHistoryPayload (fresh_id (map h_id (historial_bultos db))) now bundle
             (fresh_id (map b_id (bultos db)))"
proof -
  have ids1: "map b_id (map (\<lambda>r. if b_id r = bundleId then originalPayload (minusNumber (Num cs) qty) oi r else r) (bultos db))
       = map b_id (bultos db)"
    by (rule map_b_id_update) simp
  have ids2: "map b_id (map (\<lambda>r. if b_id r = bundleId then numberPayload b r else r)
                 (map (\<lambda>r. if b_id r = bundleId then originalPayload (minusNumber (Num cs) qty) oi r else r) (bultos db)))
       = map b_id (bultos db)"
    using ids1 map_b_id_update[of "numberPayload b" bundleId] by simp
  have cmp: "map (\<lambda>r. if b_id r = bundleId then numberPayload b r else r)
                 (map (\<lambda>r. if b_id r = bundleId then originalPayload (minusNumber (Num cs) qty) oi r else r) (bultos db))
     = map (\<lambda>r. if b_id r = bundleId then numberPayload b (originalPayload (minusNumber (Num cs) qty) oi r) else r) (bultos db)"
    by (induction "bultos db") auto
  from assms show "bultos db' = split_result_rows now bundleId orderId qty oi ni bundle cs b db"
    using ids1 ids2 cmp
    by (auto simp: split_writes_def Let_def split_result_rows_def simp del: map_map split: if_splits)
  from assms show "ordenes_corte db' = ordenes_corte db"
    by (auto simp: split_writes_def Let_def split: if_splits)
  from assms show "ubicaciones db' = ubicaciones db"
    by (auto simp: split_writes_def Let_def split: if_splits)
  from assms show "historial_bultos db' = historial_bultos db @
           splitHistoryPayload (fresh_id (map h_id (historial_bultos db))) now bundle
             (fresh_id (map b_id (bultos db)))"
    using ids1 ids2
    by (auto simp: split_writes_def Let_def simp del: map_map split: if_splits)
qed

lemma select_single_mem:
  "select_single rows i = Some r \<Longrightarrow> r \<in> set rows \<and> b_id r = i"
proof -
  assume "select_single rows i = Some r"
  then have "filter (\<lambda>r. b_id r = i) rows = [r]" by (simp add: select_single_filter)
  then have "r \<in> set (filter (\<lambda>r. b_id r = i) rows)" by simp
  then show ?thesis by simp
qed

lemma select_single_unique:
  "select_single rows i = Some r \<Longrightarrow> r' \<in> set rows \<Longrightarrow> b_id r' = i \<Longrightarrow> r' = r"
proof -
  assume a: "select_single rows i = Some r" and m: "r' \<in> set rows" and i: "b_id r' = i"
  from a have "filter (\<lambda>r. b_id r = i) rows = [r]" by (simp add: select_single_filter)
  moreover from m i have "r' \<in> set (filter (\<lambda>r. b_id r = i) rows)" by simp
  ultimately show ?thesis by simp
qed

lemma split_checks_Inr:
  assumes "split_checks F bundleId orderId qty oi ni db = Inr (bundle, cs, b)"
  shows "\<not> lessEq qty (Num 0)" and "select_single (bultos db) bundleId = Some bundle"
    and "orden_corte_id bundle = orderId"
    and "cs = (case cantidad_laminas bundle of None \<Rightarrow> 0 | Some n \<Rightarrow> n)" and "\<not> greaterEq qty (Num cs)"
    and "base (decodeBundleNumber (numero_bulto bundle)) = Some b" and "b \<noteq> 0"
    and "\<not> F Split_FetchBundle"
    and "trim (sscc oi) \<noteq> []" and "trim (luid oi) \<noteq> []" and "trim (sscc ni) \<noteq> []" and "trim (luid ni) \<noteq> []"
  using assms
  by (auto simp: split_checks_def Let_def split: if_splits option.splits)

lemma splitBundle_Inr:
  assumes "splitBundle F now bundleId orderId qty oi ni db = (Inr (), db')"
  shows "\<exists>bundle cs b.
    split_checks F bundleId orderId qty oi ni db = Inr (bundle, cs, b) \<and>
    split_writes F now bundleId orderId qty oi ni bundle cs b db = (Inr (), db')"
  using assms by (auto simp: splitBundle_def split: sum.splits)

section \<open>Split: allocation of variants\<close>

text \<open>The decoded number of the original is the same before and after the split.\<close>

lemma decode_base_ge:
  assumes "base (decodeBundleNumber (Some n)) = Some b" and "0 < b"
  shows "0 < n" and "n < 1000 \<Longrightarrow> n = b" and "1000 \<le> n \<Longrightarrow> b = n div 1000"
  using assms
  by (auto simp: decodeBundleNumber_def BUNDLE_SPLIT_NUMBER_FACTOR_def split: if_splits)

lemma decode_normalized:
  assumes "base (decodeBundleNumber (numero_bulto bundle)) = Some b" and "0 < b"
  shows "decodeBundleNumber
           (numero_bulto ((if shouldNormalizeNumber bundle then numberPayload b else (\<lambda>r. r))
              (originalPayload m oi bundle)))
         = decodeBundleNumber (numero_bulto bundle)"
proof (cases "numero_bulto bundle")
  case None
  with assms show ?thesis by (simp add: decodeBundleNumber_def)
next
  case (Some n)
  show ?thesis
  proof (cases "n < 1000")
    case True
    with Some assms have nb: "n = b" using decode_base_ge(2) by simp
    have "decodeBundleNumber (Some (encodeBundleNumber b 1)) = \<lparr>base = Some b, variant = Some 1\<rparr>"
      using assms(2) by (intro decode_encode) simp_all
    moreover have "decodeBundleNumber (Some n) = \<lparr>base = Some b, variant = Some 1\<rparr>"
      using True nb by (simp add: decodeBundleNumber_def BUNDLE_SPLIT_NUMBER_FACTOR_def)
    ultimately show ?thesis
      using Some True by (simp add: shouldNormalizeNumber_def BUNDLE_SPLIT_NUMBER_FACTOR_def)
  next
    case False
    with Some show ?thesis
      by (simp add: shouldNormalizeNumber_def BUNDLE_SPLIT_NUMBER_FACTOR_def)
  qed
qed

lemma usedVariants_rows: "usedVariants orderId b db = variants_of orderId b (bultos db)"
  by (simp add: usedVariants_def relatedBundles_def variants_of_def)

lemma variants_of_append:
  "variants_of o' b (xs @ ys) = variants_of o' b xs @ variants_of o' b ys"
  by (simp add: variants_of_def)

lemma variants_of_map:
  assumes "\<And>r. r \<in> set rows \<Longrightarrow> orden_corte_id (f r) = orden_corte_id r
             \<and> decodeBundleNumber (numero_bulto (f r)) = decodeBundleNumber (numero_bulto r)"
  shows "variants_of o' b (map f rows) = variants_of o' b rows"
  using assms
proof (induction rows)
  case Nil
  show ?case by simp
next
  case (Cons r rows)
  have k: "orden_corte_id (f r) = orden_corte_id r"
    "decodeBundleNumber (numero_bulto (f r)) = decodeBundleNumber (numero_bulto r)"
    using Cons.prems[of r] by simp_all
  have "variants_of o' b (map f rows) = variants_of o' b rows"
    using Cons.prems by (intro Cons.IH) simp
  then show ?case
    using k by (simp add: variants_of_def)
qed

lemma variants_of_single:
  "variants_of o' b' [r] =
     (if orden_corte_id r = o' \<and> base (decodeBundleNumber (numero_bulto r)) = Some b'
      then (case variant (decodeBundleNumber (numero_bulto r)) of None \<Rightarrow> [] | Some v \<Rightarrow> [v])
      else [])"
  by (simp add: variants_of_def)

lemma decode_variant_ge_1: "variant (decodeBundleNumber x) = Some v \<Longrightarrow> 1 \<le> v"
proof (cases x)
  case None
  assume "variant (decodeBundleNumber x) = Some v"
  with None show ?thesis by (simp add: decodeBundleNumber_def)
next
  case (Some n)
  assume a: "variant (decodeBundleNumber x) = Some v"
  show ?thesis
  proof (cases "n \<ge> 1000")
    case False
    with a Some show ?thesis
      by (simp add: decodeBundleNumber_def BUNDLE_SPLIT_NUMBER_FACTOR_def)
  next
    case True
    have "0 \<le> n mod 1000" by simp
    with a Some True show ?thesis
      by (simp add: decodeBundleNumber_def BUNDLE_SPLIT_NUMBER_FACTOR_def split: if_splits)
  qed
qed

lemma variants_of_Cons:
  "variants_of o' b (r # rows) = variants_of o' b [r] @ variants_of o' b rows"
  by (simp add: variants_of_def)

lemma variants_ge_1: "v \<in> set (variants_of o' b rows) \<Longrightarrow> 1 \<le> v"
proof (induction rows)
  case Nil
  then show ?case by (simp add: variants_of_def)
next
  case (Cons r rows)
  have "v \<in> set (variants_of o' b [r]) \<or> v \<in> set (variants_of o' b rows)"
    using Cons.prems variants_of_Cons[of o' b r rows] by simp
  then show ?case
  proof
    assume "v \<in> set (variants_of o' b [r])"
    then have "variant (decodeBundleNumber (numero_bulto r)) = Some v"
      by (cases "variant (decodeBundleNumber (numero_bulto r))";
          cases "orden_corte_id r = o' \<and> base (decodeBundleNumber (numero_bulto r)) = Some b")
         (simp_all add: variants_of_single)
    then show ?thesis by (rule decode_variant_ge_1)
  next
    assume "v \<in> set (variants_of o' b rows)"
    then show ?thesis by (rule Cons.IH)
  qed
qed

lemma fold_max_int_ge: "(m::int) \<le> fold max ks m"
  by (induction ks arbitrary: m) (auto intro: order_trans[OF max.cobounded2])

lemma nextVariant_ge_2: "2 \<le> nextVariant orderId b db"
proof (cases "usedVariants orderId b db")
  case Nil
  then show ?thesis by (simp add: nextVariant_def)
next
  case (Cons v vs)
  then have "v \<in> set (variants_of orderId b (bultos db))" by (simp add: usedVariants_rows)
  then have "1 \<le> v" by (rule variants_ge_1)
  moreover have "v \<le> fold max vs v" by (rule fold_max_int_ge)
  ultimately show ?thesis using Cons by (simp add: nextVariant_def)
qed

lemma split_rows_variants:
  assumes sel: "select_single (bultos db) bundleId = Some bundle"
    and ord: "orden_corte_id bundle = orderId"
    and bs: "base (decodeBundleNumber (numero_bulto bundle)) = Some b" and pos: "0 < b"
    and le: "nextVariant orderId b db \<le> 999"
  shows "variants_of orderId b (split_result_rows now bundleId orderId qty oi ni bundle cs b db)
       = usedVariants orderId b db @ [nextVariant orderId b db]"
proof -
  let ?f = "\<lambda>r. if b_id r = bundleId
               then (if shouldNormalizeNumber bundle then numberPayload b else (\<lambda>r. r))
                      (originalPayload (minusNumber (Num cs) qty) oi r)
               else r"
  have keep: "orden_corte_id (?f r) = orden_corte_id r
       \<and> decodeBundleNumber (numero_bulto (?f r)) = decodeBundleNumber (numero_bulto r)"
    if "r \<in> set (bultos db)" for r
  proof (cases "b_id r = bundleId")
    case True
    with that sel have "r = bundle" by (intro select_single_unique)
    then show ?thesis using True decode_normalized[OF bs pos, of "minusNumber (Num cs) qty" oi] by simp
  next
    case False
    then show ?thesis by simp
  qed
  have old: "variants_of orderId b (map ?f (bultos db)) = variants_of orderId b (bultos db)"
    using keep by (intro variants_of_map) blast
  have v1: "1 \<le> nextVariant orderId b db" using nextVariant_ge_2[of orderId b db] by simp
  have dec: "decodeBundleNumber (Some (encodeBundleNumber b (nextVariant orderId b db)))
       = \<lparr>base = Some b, variant = Some (nextVariant orderId b db)\<rparr>"
    using pos v1 le by (intro decode_encode) simp_all
  show ?thesis
    unfolding split_result_rows_def variants_of_append old
    by (simp add: variants_of_single dec usedVariants_rows)
qed

lemma split_step_variants:
  assumes ok: "splitBundle F now bundleId orderId k oi ni db = (Inr (), db')"
    and sel: "select_single (bultos db) bundleId = Some bundle"
    and bs: "base (decodeBundleNumber (numero_bulto bundle)) = Some b" and pos: "0 < b"
    and le: "nextVariant orderId b db \<le> 999"
  shows "usedVariants orderId b db' = usedVariants orderId b db @ [nextVariant orderId b db]"
proof -
  from splitBundle_Inr[OF ok] obtain bundle' cs b' where
    ch: "split_checks F bundleId orderId k oi ni db = Inr (bundle', cs, b')" and
    wr: "split_writes F now bundleId orderId k oi ni bundle' cs b' db = (Inr (), db')"
    by blast
  from split_checks_Inr(2)[OF ch] sel have eq: "bundle' = bundle" by simp
  from split_checks_Inr(6)[OF ch] bs eq have eb: "b' = b" by simp
  from split_checks_Inr(3)[OF ch] eq have ord: "orden_corte_id bundle = orderId" by simp
  have "bultos db' = split_result_rows now bundleId orderId k oi ni bundle cs b db"
    using split_writes_Inr(1)[OF wr] eq eb by simp
  then show ?thesis
    using split_rows_variants[OF sel ord bs pos le] by (simp add: usedVariants_rows)
qed

lemma decode_variant_of_base:
  "base (decodeBundleNumber x) = Some b \<Longrightarrow> \<exists>v. variant (decodeBundleNumber x) = Some v"
  by (cases x) (simp_all add: decodeBundleNumber_def)

lemma variants_of_mem:
  assumes "r \<in> set rows" and "orden_corte_id r = o'"
    and "base (decodeBundleNumber (numero_bulto r)) = Some b"
    and "variant (decodeBundleNumber (numero_bulto r)) = Some v"
  shows "v \<in> set (variants_of o' b rows)"
  using assms(1)
proof (induction rows)
  case Nil
  then show ?case by simp
next
  case (Cons x rows)
  show ?case
  proof (cases "r = x")
    case True
    then have "variants_of o' b [x] = [v]" using assms(2-4) by (simp add: variants_of_single)
    then show ?thesis using variants_of_Cons[of o' b x rows] by simp
  next
    case False
    with Cons have "v \<in> set (variants_of o' b rows)" by simp
    then show ?thesis using variants_of_Cons[of o' b x rows] by simp
  qed
qed

lemma in_group_variants_nonempty:
  assumes sel: "select_single (bultos db) bundleId = Some bundle"
    and ord: "orden_corte_id bundle = orderId"
    and bs: "base (decodeBundleNumber (numero_bulto bundle)) = Some b"
  shows "usedVariants orderId b db \<noteq> []"
proof -
  from select_single_mem[OF sel] have m: "bundle \<in> set (bultos db)" by simp
  from decode_variant_of_base[OF bs] obtain v
    where v: "variant (decodeBundleNumber (numero_bulto bundle)) = Some v" by blast
  have "v \<in> set (variants_of orderId b (bultos db))"
    using m ord bs v by (rule variants_of_mem)
  then show ?thesis by (auto simp: usedVariants_rows)
qed

lemma fold_max_Max: "fold max vs (v::int) = Max (set (v # vs))"
  by (rule Max.set_eq_fold[symmetric])

lemma nextVariant_Max:
  "usedVariants orderId b db \<noteq> [] \<Longrightarrow>
   nextVariant orderId b db = Max (set (usedVariants orderId b db)) + 1"
proof (cases "usedVariants orderId b db")
  case Nil
  assume "usedVariants orderId b db \<noteq> []"
  with Nil show ?thesis by simp
next
  case (Cons v vs)
  have "nextVariant orderId b db = fold max vs v + 1" using Cons by (simp add: nextVariant_def)
  also have "\<dots> = Max (set (v # vs)) + 1" by (simp only: fold_max_Max)
  finally show ?thesis using Cons by simp
qed

lemma Max_upto: "1 \<le> m \<Longrightarrow> Max (set [1..m]) = (m::int)"
  by (intro Max_eqI) auto

lemma upto_snoc: "1 \<le> m \<Longrightarrow> [1..m] @ [m + 1] = [1..m + 1]"
  using upto_rec2[of 1 "m + 1"] by simp

lemma group_splits_variants:
  assumes "group_splits orderId b db n db'"
    and "usedVariants orderId b db = [1..m]" and "1 \<le> m" and "0 < b" and "m + int n \<le> 999"
  shows "usedVariants orderId b db' = [1..m + int n]"
  using assms
proof (induction rule: group_splits.induct)
  case (none db)
  then show ?case by simp
next
  case (more db n db1 bundleId bdl F now k oi ni db2)
  have iv: "usedVariants orderId b db1 = [1..m + int n]"
    using more by simp
  have m1: "1 \<le> m + int n" using more.prems by simp
  then have ne: "usedVariants orderId b db1 \<noteq> []" using iv by simp
  have nv: "nextVariant orderId b db1 = m + int n + 1"
    using nextVariant_Max[OF ne] iv Max_upto[OF m1] by simp
  then have le: "nextVariant orderId b db1 \<le> 999" using more.prems by simp
  have "usedVariants orderId b db2 = usedVariants orderId b db1 @ [nextVariant orderId b db1]"
    using more.hyps(4) more.hyps(2) more.hyps(3) \<open>0 < b\<close> le by (rule split_step_variants)
  then have "usedVariants orderId b db2 = [1..m + int n + 1]"
    using iv nv upto_snoc[OF m1] by simp
  moreover have "m + int (Suc n) = m + int n + 1" by simp
  ultimately show ?case by (simp only:)
qed

text \<open>
  Claim C3 (as amended): in a group with a positive base, a successful split gives the
  new sibling the variant max(decoded variants of the sibling group) + 1 as long as that
  is at most 999, and
  \<open>n \<le> 998\<close> successful splits in sequence of a group that starts with the single
  variant 1 leave the group with exactly the variants 1, 2, ..., n + 1, each once.
\<close>

theorem split_variant_allocation:
  assumes "0 < b"
  shows "(splitBundle F now bundleId orderId k oi ni db = (Inr (), db1)
          \<and> select_single (bultos db) bundleId = Some bundle
          \<and> base (decodeBundleNumber (numero_bulto bundle)) = Some b
          \<and> Max (set (usedVariants orderId b db)) + 1 \<le> 999
          \<longrightarrow> decodeBundleNumber (numero_bulto (last (bultos db1)))
                = \<lparr>base = Some b, variant = Some (Max (set (usedVariants orderId b db)) + 1)\<rparr>
              \<and> usedVariants orderId b db1
                = usedVariants orderId b db @ [Max (set (usedVariants orderId b db)) + 1])
       \<and> (group_splits orderId b db n db' \<and> usedVariants orderId b db = [1] \<and> n \<le> 998
          \<longrightarrow> usedVariants orderId b db' = [1..int n + 1]
              \<and> distinct (usedVariants orderId b db')
              \<and> set (usedVariants orderId b db') = {1..int n + 1})"
proof (intro conjI impI)
  assume h: "splitBundle F now bundleId orderId k oi ni db = (Inr (), db1)
          \<and> select_single (bultos db) bundleId = Some bundle
          \<and> base (decodeBundleNumber (numero_bulto bundle)) = Some b
          \<and> Max (set (usedVariants orderId b db)) + 1 \<le> 999"
  then have ok: "splitBundle F now bundleId orderId k oi ni db = (Inr (), db1)"
    and sel: "select_single (bultos db) bundleId = Some bundle"
    and bs: "base (decodeBundleNumber (numero_bulto bundle)) = Some b" by simp_all
  from splitBundle_Inr[OF ok] obtain bundle' cs b' where
    ch: "split_checks F bundleId orderId k oi ni db = Inr (bundle', cs, b')" and
    wr: "split_writes F now bundleId orderId k oi ni bundle' cs b' db = (Inr (), db1)"
    by blast
  from split_checks_Inr(2)[OF ch] sel have eq: "bundle' = bundle" by simp
  from split_checks_Inr(6)[OF ch] bs eq have eb: "b' = b" by simp
  from split_checks_Inr(3)[OF ch] eq have ord: "orden_corte_id bundle = orderId" by simp
  have ne: "usedVariants orderId b db \<noteq> []"
    using sel ord bs by (rule in_group_variants_nonempty)
  have nv: "nextVariant orderId b db = Max (set (usedVariants orderId b db)) + 1"
    using ne by (rule nextVariant_Max)
  with h have le: "nextVariant orderId b db \<le> 999" by simp
  have rows: "bultos db1 = split_result_rows now bundleId orderId k oi ni bundle cs b db"
    using split_writes_Inr(1)[OF wr] eq eb by simp
  have "numero_bulto (last (bultos db1)) = Some (encodeBundleNumber b (nextVariant orderId b db))"
    unfolding rows split_result_rows_def by simp
  moreover have "1 \<le> nextVariant orderId b db" using nextVariant_ge_2[of orderId b db] by simp
  ultimately show "decodeBundleNumber (numero_bulto (last (bultos db1)))
      = \<lparr>base = Some b, variant = Some (Max (set (usedVariants orderId b db)) + 1)\<rparr>"
    using decode_encode[of b "nextVariant orderId b db"] assms le nv by simp
  show "usedVariants orderId b db1
      = usedVariants orderId b db @ [Max (set (usedVariants orderId b db)) + 1]"
    using split_step_variants[OF ok sel bs assms le] nv by simp
next
  assume h: "group_splits orderId b db n db' \<and> usedVariants orderId b db = [1] \<and> n \<le> 998"
  then have "usedVariants orderId b db = [1..1]" by simp
  with h assms have "usedVariants orderId b db' = [1..1 + int n]"
    by (intro group_splits_variants) simp_all
  then show v: "usedVariants orderId b db' = [1..int n + 1]" by (simp add: add.commute)
  show "distinct (usedVariants orderId b db')" unfolding v by simp
  show "set (usedVariants orderId b db') = {1..int n + 1}" unfolding v by simp
qed

lemmas split_eval =
  splitBundle_def split_checks_def split_writes_def select_single_def trim_def isWhiteSpace_def
  decodeBundleNumber_def encodeBundleNumber_def BUNDLE_SPLIT_NUMBER_FACTOR_def nextVariant_def
  usedVariants_def relatedBundles_def fresh_id_def update_bultos_eq_def originalPayload_def
  numberPayload_def shouldNormalizeNumber_def newBundleRow_def splitHistoryPayload_def
  DEFAULT_BUNDLE_STATUS_def exampleStore_def exampleRow_def exampleIds_def noFaults_def Let_def
  lessEq_def greaterEq_def minusNumber_def jsonNumber_def

lemma storeA1_rows:
  "splitBundle noFaults 5 1 1 (Num 40) (exampleIds ''a'') (exampleIds ''b'') storeA = (Inr (), storeA1)"
  "bultos storeA1 =
     [(exampleRow 1 1001 60 Disponible)\<lparr>SSCC := Some ''a'', LUID := Some ''a''\<rparr>,
      exampleRow 2 2 50 Disponible,
      (exampleRow 3 1002 40 Disponible)\<lparr>creado_en := Some 5, SSCC := Some ''b'', LUID := Some ''b''\<rparr>]"
  by (simp_all add: storeA1_def storeA_def split_eval)

lemma storeA2_rows:
  "splitBundle noFaults 6 3 1 (Num 10) (exampleIds ''c'') (exampleIds ''d'') storeA1 = (Inr (), storeA2)"
  "map numero_bulto (bultos storeA2) = [Some 1001, Some 2, Some 1002, Some 1003]"
  "map cantidad_laminas (bultos storeA2) = [Some 60, Some 50, Some 30, Some 10]"
proof -
  have f: "fst (splitBundle noFaults 6 3 1 (Num 10) (exampleIds ''c'') (exampleIds ''d'') storeA1) = Inr ()"
    unfolding splitBundle_def split_checks_def split_writes_def
    by (simp add: storeA1_rows(2) split_eval)
  show "splitBundle noFaults 6 3 1 (Num 10) (exampleIds ''c'') (exampleIds ''d'') storeA1 = (Inr (), storeA2)"
    using f by (simp add: storeA2_def prod_eq_iff)
  show "map numero_bulto (bultos storeA2) = [Some 1001, Some 2, Some 1002, Some 1003]"
    unfolding storeA2_def splitBundle_def split_checks_def split_writes_def
    by (simp add: storeA1_rows(2) split_eval)
  show "map cantidad_laminas (bultos storeA2) = [Some 60, Some 50, Some 30, Some 10]"
    unfolding storeA2_def splitBundle_def split_checks_def split_writes_def
    by (simp add: storeA1_rows(2) split_eval)
qed

theorem split_variant_allocation_witness:
  "usedVariants 1 1 storeA = [1] \<and> group_splits 1 1 storeA 2 storeA2
   \<and> usedVariants 1 1 storeA2 = [1, 2, 3]
   \<and> decodeBundleNumber (numero_bulto (last (bultos storeA1))) = \<lparr>base = Some 1, variant = Some 2\<rparr>"
proof -
  have u: "usedVariants 1 1 storeA = [1]"
    by (simp add: storeA_def split_eval)
  have s0: "select_single (bultos storeA) 1 = Some (exampleRow 1 1 100 Disponible)"
    by (simp add: storeA_def select_single_def exampleStore_def exampleRow_def)
  have b0: "base (decodeBundleNumber (numero_bulto (exampleRow 1 1 100 Disponible))) = Some 1"
    by (simp add: split_eval)
  have s1: "select_single (bultos storeA1) 3 =
      Some ((exampleRow 3 1002 40 Disponible)\<lparr>creado_en := Some 5, SSCC := Some ''b'', LUID := Some ''b''\<rparr>)"
    by (simp add: storeA1_rows(2) select_single_def exampleRow_def)
  have b1: "base (decodeBundleNumber (numero_bulto
       ((exampleRow 3 1002 40 Disponible)\<lparr>creado_en := Some 5, SSCC := Some ''b'', LUID := Some ''b''\<rparr>))) = Some 1"
    by (simp add: split_eval)
  have g: "group_splits 1 1 storeA 2 storeA2"
    using group_splits.more[OF group_splits.more[OF group_splits.none s0 b0 storeA1_rows(1)]
            s1 b1 storeA2_rows(1)]
    by (simp add: numeral_2_eq_2)
  have m: "Max (set (usedVariants 1 1 storeA)) + 1 \<le> 999" using u by simp
  have "0 < (1::int)" by simp
  from split_variant_allocation[OF this, of noFaults 5 1 1 "Num 40" "exampleIds ''a''" "exampleIds ''b''"
      storeA storeA1 "exampleRow 1 1 100 Disponible" 2 storeA2]
  show ?thesis using u g s0 b0 m storeA1_rows(1) by (simp add: upto_rec1)
qed

text \<open>
  Claim C3 as stated fails when the group already holds variant 999: the next sibling is
  stored as base * 1000 + 1000, which decodes to variant 1 of the next base, so the group
  of base 7 gains no variant and the group of base 8 gains a member. It also fails for a
  negative number: the encoded numbers of base -5 are below 1000 and decode to themselves,
  so the group of base -5 is left empty.
\<close>

theorem split_variant_overflow_counterexample:
  "fst (splitBundle noFaults 5 1 1 (Num 3) (exampleIds ''a'') (exampleIds ''b'') storeFull) = Inr ()
   \<and> usedVariants 1 7 storeFull = [999]
   \<and> usedVariants 1 7
       (snd (splitBundle noFaults 5 1 1 (Num 3) (exampleIds ''a'') (exampleIds ''b'') storeFull)) = [999]
   \<and> decodeBundleNumber (numero_bulto (last (bultos
       (snd (splitBundle noFaults 5 1 1 (Num 3) (exampleIds ''a'') (exampleIds ''b'') storeFull)))))
       = \<lparr>base = Some 8, variant = Some 1\<rparr>
   \<and> fst (splitBundle noFaults 5 1 1 (Num 3) (exampleIds ''a'') (exampleIds ''b'') storeNegative) = Inr ()
   \<and> usedVariants 1 (- 5) storeNegative = [1]
   \<and> usedVariants 1 (- 5)
       (snd (splitBundle noFaults 5 1 1 (Num 3) (exampleIds ''a'') (exampleIds ''b'') storeNegative)) = []"
  by (simp add: storeFull_def storeNegative_def split_eval)

section \<open>Split: conservation of sheets\<close>

lemma select_single_append_other:
  "b_id r \<noteq> i \<Longrightarrow> select_single (rows @ [r]) i = select_single rows i"
  by (simp add: select_single_def)

lemma select_single_in_ids:
  "select_single rows i = Some r \<Longrightarrow> i \<in> set (map b_id rows)"
  using select_single_mem[of rows i r] by auto

lemma map_single_target:
  assumes "select_single rows i = Some r0"
  shows "map (\<lambda>r. if b_id r = i then f r else r) rows
       = map (\<lambda>r. if b_id r = i then f r0 else r) rows"
proof (rule map_cong[OF refl])
  fix r assume "r \<in> set rows"
  then show "(if b_id r = i then f r else r) = (if b_id r = i then f r0 else r)"
    using select_single_unique[OF assms, of r] by auto
qed

lemma split_checks_sheets:
  assumes "select_single (bultos db) bundleId = Some bundle"
    and "\<not> (0 < k \<and> k < currentSheets bundle)"
  shows "\<exists>e. split_checks F bundleId orderId (Num k) oi ni db = Inl e"
  using assms
  by (auto simp: split_checks_def currentSheets_def Let_def lessEq_def greaterEq_def)

text \<open>
  Claim C4 (as amended): for a bundle with \<open>S\<close> sheets and an integer quantity \<open>k\<close>, a
  successful split by \<open>k\<close> has \<open>0 < k < S\<close>, leaves the original with \<open>S - k\<close> sheets and
  creates one new bundle with \<open>k\<close> sheets; both decode to the same base number when that
  base is positive and the next variant of the group is at most 999; and every integer
  \<open>k\<close> outside \<open>(0, S)\<close> is rejected with the store untouched. The statement is about
  quantities that are numbers; it says nothing about the quantity \<^verbatim>\<open>NaN\<close>.
\<close>

theorem split_conservation:
  assumes sel: "select_single (bultos db) bundleId = Some bundle"
    and S: "S = currentSheets bundle"
  shows "(splitBundle F now bundleId orderId (Num k) oi ni db = (Inr (), db') \<longrightarrow>
            0 < k \<and> k < S \<and>
            (\<exists>orig new.
               bultos db' = map (\<lambda>r. if b_id r = bundleId then orig else r) (bultos db) @ [new]
             \<and> b_id orig = bundleId \<and> b_id new \<notin> set (map b_id (bultos db))
             \<and> cantidad_laminas orig = Some (S - k) \<and> cantidad_laminas new = Some k
             \<and> currentSheets orig + currentSheets new = S
             \<and> (\<forall>b. base (decodeBundleNumber (numero_bulto bundle)) = Some b \<and> 0 < b
                      \<and> nextVariant orderId b db \<le> 999
                   \<longrightarrow> base (decodeBundleNumber (numero_bulto orig)) = Some b
                     \<and> base (decodeBundleNumber (numero_bulto new)) = Some b)))
       \<and> (\<not> (0 < k \<and> k < S) \<longrightarrow>
            (\<exists>e. splitBundle F now bundleId orderId (Num k) oi ni db = (Inl e, db)))"
proof (intro conjI impI)
  assume ok: "splitBundle F now bundleId orderId (Num k) oi ni db = (Inr (), db')"
  from splitBundle_Inr[OF ok] obtain bundle' cs b' where
    ch: "split_checks F bundleId orderId (Num k) oi ni db = Inr (bundle', cs, b')" and
    wr: "split_writes F now bundleId orderId (Num k) oi ni bundle' cs b' db = (Inr (), db')"
    by blast
  from split_checks_Inr(2)[OF ch] sel have eq: "bundle' = bundle" by simp
  from split_checks_Inr(4)[OF ch] eq S have cs: "cs = S" by (simp add: currentSheets_def)
  from split_checks_Inr(6)[OF ch] eq
  have bs: "base (decodeBundleNumber (numero_bulto bundle)) = Some b'" by simp
  show "0 < k" using split_checks_Inr(1)[OF ch] by (simp add: lessEq_def)
  show "k < S" using split_checks_Inr(5)[OF ch] cs by (simp add: greaterEq_def)
  let ?f = "\<lambda>r. (if shouldNormalizeNumber bundle then numberPayload b' else (\<lambda>r. r))
                   (originalPayload (minusNumber (Num S) (Num k)) oi r)"
  let ?new = "newBundleRow (fresh_id (map b_id (bultos db))) now orderId (Num k) ni bundle b'
                (nextVariant orderId b' db)"
  have rows: "bultos db' = map (\<lambda>r. if b_id r = bundleId then ?f bundle else r) (bultos db) @ [?new]"
    using split_writes_Inr(1)[OF wr] eq cs map_single_target[OF sel, of ?f]
    by (simp add: split_result_rows_def)
  have id: "b_id (?f bundle) = bundleId" using select_single_mem[OF sel] by simp
  have fresh: "b_id ?new \<notin> set (map b_id (bultos db))"
    using fresh_id_fresh[of "map b_id (bultos db)"] by simp
  have so: "cantidad_laminas (?f bundle) = Some (S - k)"
    by (simp add: minusNumber_def jsonNumber_def)
  have sn: "cantidad_laminas ?new = Some k" by (simp add: jsonNumber_def)
  have sum: "currentSheets (?f bundle) + currentSheets ?new = S"
    using so sn by (simp add: currentSheets_def)
  have bases: "base (decodeBundleNumber (numero_bulto (?f bundle))) = Some b
             \<and> base (decodeBundleNumber (numero_bulto ?new)) = Some b"
    if h: "base (decodeBundleNumber (numero_bulto bundle)) = Some b \<and> 0 < b
           \<and> nextVariant orderId b db \<le> 999" for b
  proof -
    from h bs have e: "b' = b" by simp
    have "decodeBundleNumber (numero_bulto (?f bundle)) = decodeBundleNumber (numero_bulto bundle)"
      unfolding e using h by (intro decode_normalized) simp_all
    moreover have "decodeBundleNumber (numero_bulto ?new)
        = \<lparr>base = Some b, variant = Some (nextVariant orderId b db)\<rparr>"
      using decode_encode[of b "nextVariant orderId b db"] h e nextVariant_ge_2[of orderId b db]
      by simp
    ultimately show ?thesis using h by simp
  qed
  show "\<exists>orig new.
          bultos db' = map (\<lambda>r. if b_id r = bundleId then orig else r) (bultos db) @ [new]
        \<and> b_id orig = bundleId \<and> b_id new \<notin> set (map b_id (bultos db))
        \<and> cantidad_laminas orig = Some (S - k) \<and> cantidad_laminas new = Some k
        \<and> currentSheets orig + currentSheets new = S
        \<and> (\<forall>b. base (decodeBundleNumber (numero_bulto bundle)) = Some b \<and> 0 < b
                 \<and> nextVariant orderId b db \<le> 999
              \<longrightarrow> base (decodeBundleNumber (numero_bulto orig)) = Some b
                \<and> base (decodeBundleNumber (numero_bulto new)) = Some b)"
    using rows id fresh so sn sum bases
    by (intro exI[of _ "?f bundle"] exI[of _ "?new"]) blast
next
  assume "\<not> (0 < k \<and> k < S)"
  then obtain e where "split_checks F bundleId orderId (Num k) oi ni db = Inl e"
    using split_checks_sheets[OF sel, of k F orderId oi ni] S by blast
  then show "\<exists>e. splitBundle F now bundleId orderId (Num k) oi ni db = (Inl e, db)"
    by (simp add: splitBundle_def)
qed

theorem split_conservation_witness:
  "select_single (bultos storeA) 1 = Some (exampleRow 1 1 100 Disponible)
   \<and> currentSheets (exampleRow 1 1 100 Disponible) = 100
   \<and> splitBundle noFaults 5 1 1 (Num 40) (exampleIds ''a'') (exampleIds ''b'') storeA = (Inr (), storeA1)
   \<and> map cantidad_laminas (bultos storeA1) = [Some 60, Some 50, Some 40]
   \<and> map (\<lambda>r. base (decodeBundleNumber (numero_bulto r))) (bultos storeA1) = [Some 1, Some 2, Some 1]
   \<and> (\<exists>e. splitBundle noFaults 5 1 1 (Num 100) (exampleIds ''a'') (exampleIds ''b'') storeA = (Inl e, storeA))"
proof -
  have s0: "select_single (bultos storeA) 1 = Some (exampleRow 1 1 100 Disponible)"
    by (simp add: storeA_def select_single_def exampleStore_def exampleRow_def)
  have c0: "currentSheets (exampleRow 1 1 100 Disponible) = 100"
    by (simp add: currentSheets_def exampleRow_def)
  have r: "map cantidad_laminas (bultos storeA1) = [Some 60, Some 50, Some 40]"
    "map (\<lambda>r. base (decodeBundleNumber (numero_bulto r))) (bultos storeA1) = [Some 1, Some 2, Some 1]"
    by (simp_all add: storeA1_rows(2) exampleRow_def decodeBundleNumber_def
          BUNDLE_SPLIT_NUMBER_FACTOR_def)
  from split_conservation[OF s0 c0[symmetric], of noFaults 5 1 100 "exampleIds ''a''"
      "exampleIds ''b''" storeA1]
  have "\<exists>e. splitBundle noFaults 5 1 1 (Num 100) (exampleIds ''a'') (exampleIds ''b'') storeA = (Inl e, storeA)"
    by simp
  then show ?thesis using s0 c0 r storeA1_rows(1) by simp
qed

text \<open>
  Claim C4 as stated fails for a bundle that holds variant 999 of its group: the split
  succeeds and conserves the sheets, but the original decodes to base 7 and the new
  bundle to base 8. It also fails for a bundle with the negative number -5: the original
  is renumbered -4999 and the new bundle gets -4998, and each decodes to itself. And the
  quantity \<^verbatim>\<open>NaN\<close>, which is not inside \<open>(0, S)\<close>, is not rejected: both guards compare
  false and the split is carried out.
\<close>

theorem split_conservation_counterexample:
  "fst (splitBundle noFaults 5 1 1 (Num 3) (exampleIds ''a'') (exampleIds ''b'') storeFull) = Inr ()
   \<and> map cantidad_laminas (bultos
       (snd (splitBundle noFaults 5 1 1 (Num 3) (exampleIds ''a'') (exampleIds ''b'') storeFull)))
       = [Some 7, Some 3]
   \<and> map (\<lambda>r. base (decodeBundleNumber (numero_bulto r))) (bultos
       (snd (splitBundle noFaults 5 1 1 (Num 3) (exampleIds ''a'') (exampleIds ''b'') storeFull)))
       = [Some 7, Some 8]
   \<and> fst (splitBundle noFaults 5 1 1 (Num 3) (exampleIds ''a'') (exampleIds ''b'') storeNegative) = Inr ()
   \<and> map (\<lambda>r. base (decodeBundleNumber (numero_bulto r))) (bultos
       (snd (splitBundle noFaults 5 1 1 (Num 3) (exampleIds ''a'') (exampleIds ''b'') storeNegative)))
       = [Some (- 4999), Some (- 4998)]
   \<and> fst (splitBundle noFaults 5 1 1 NaN (exampleIds ''a'') (exampleIds ''b'') storeA) = Inr ()
   \<and> length (bultos storeA) = 2
   \<and> length (bultos
       (snd (splitBundle noFaults 5 1 1 NaN (exampleIds ''a'') (exampleIds ''b'') storeA))) = 3"
  by (simp add: storeFull_def storeNegative_def storeA_def split_eval)

section \<open>Split: bundles without a usable number\<close>

lemma decode_zero: "decodeBundleNumber (Some 0) = \<lparr>base = Some 0, variant = Some 1\<rparr>"
  by (simp add: decodeBundleNumber_def BUNDLE_SPLIT_NUMBER_FACTOR_def)

text \<open>
  Claim C10: a stored number 0 decodes to base 0, variant 1, and a bundle with that number
  (or with no number) is never split: every call returns an error and leaves the store as
  it was, and the error is the one about the missing number as soon as the earlier checks
  pass.
\<close>

theorem zero_number_never_split:
  assumes "bundle \<in> set (bultos db)" and "b_id bundle = bundleId"
    and "numero_bulto bundle = Some 0 \<or> numero_bulto bundle = None"
  shows "decodeBundleNumber (Some 0) = \<lparr>base = Some 0, variant = Some 1\<rparr>
     \<and> (\<exists>e. splitBundle F now bundleId orderId qty oi ni db = (Inl e, db))
     \<and> (\<not> lessEq qty (Num 0) \<and> trim (sscc oi) \<noteq> [] \<and> trim (luid oi) \<noteq> [] \<and> trim (sscc ni) \<noteq> []
          \<and> trim (luid ni) \<noteq> [] \<and> select_single (bultos db) bundleId = Some bundle
          \<and> \<not> F Split_FetchBundle \<and> orden_corte_id bundle = orderId
          \<and> \<not> greaterEq qty (Num (currentSheets bundle))
        \<longrightarrow> splitBundle F now bundleId orderId qty oi ni db = (Inl NoNumber, db))"
proof (intro conjI impI)
  show "decodeBundleNumber (Some 0) = \<lparr>base = Some 0, variant = Some 1\<rparr>"
    by (rule decode_zero)
next
  show "\<exists>e. splitBundle F now bundleId orderId qty oi ni db = (Inl e, db)"
  proof (cases "split_checks F bundleId orderId qty oi ni db")
    case (Inl e)
    then show ?thesis by (simp add: splitBundle_def)
  next
    case (Inr t)
    obtain r cs b where t: "t = (r, cs, b)" by (cases t)
    from Inr t split_checks_Inr[of F bundleId orderId qty oi ni db r cs b]
    have s: "select_single (bultos db) bundleId = Some r"
      and b: "base (decodeBundleNumber (numero_bulto r)) = Some b" and nz: "b \<noteq> 0" by simp_all
    from select_single_unique[OF s assms(1) assms(2)] have "bundle = r" .
    with b assms(3) have "b = 0"
      by (auto simp: decodeBundleNumber_def BUNDLE_SPLIT_NUMBER_FACTOR_def)
    with nz show ?thesis by simp
  qed
next
  assume h: "\<not> lessEq qty (Num 0) \<and> trim (sscc oi) \<noteq> [] \<and> trim (luid oi) \<noteq> [] \<and> trim (sscc ni) \<noteq> []
          \<and> trim (luid ni) \<noteq> [] \<and> select_single (bultos db) bundleId = Some bundle
          \<and> \<not> F Split_FetchBundle \<and> orden_corte_id bundle = orderId
          \<and> \<not> greaterEq qty (Num (currentSheets bundle))"
  then have "split_checks F bundleId orderId qty oi ni db = Inl NoNumber"
    using assms(3)
    by (auto simp: split_checks_def Let_def decodeBundleNumber_def currentSheets_def
          BUNDLE_SPLIT_NUMBER_FACTOR_def)
  then show "splitBundle F now bundleId orderId qty oi ni db = (Inl NoNumber, db)"
    by (simp add: splitBundle_def)
qed

theorem zero_number_never_split_witness:
  "exampleRow 1 0 100 Disponible \<in> set (bultos storeZero)
   \<and> numero_bulto (exampleRow 1 0 100 Disponible) = Some 0
   \<and> splitBundle noFaults 5 1 1 (Num 40) (exampleIds ''a'') (exampleIds ''b'') storeZero
       = (Inl NoNumber, storeZero)"
proof -
  have m: "exampleRow 1 0 100 Disponible \<in> set (bultos storeZero)"
    by (simp add: storeZero_def exampleStore_def)
  have i: "b_id (exampleRow 1 0 100 Disponible) = 1" by (simp add: exampleRow_def)
  have n: "numero_bulto (exampleRow 1 0 100 Disponible) = Some 0" by (simp add: exampleRow_def)
  have s: "select_single (bultos storeZero) 1 = Some (exampleRow 1 0 100 Disponible)"
    by (simp add: storeZero_def select_single_def exampleStore_def exampleRow_def)
  from zero_number_never_split[OF m i disjI1[OF n], where F = noFaults and now = 5
      and orderId = 1 and qty = "Num 40" and oi = "exampleIds ''a''" and ni = "exampleIds ''b''"]
  show ?thesis using m n s
    by (simp add: exampleIds_def trim_def isWhiteSpace_def noFaults_def exampleRow_def
          currentSheets_def lessEq_def greaterEq_def)
qed

section \<open>Split: failures between the writes\<close>

lemma split_writes_outcomes:
  assumes "split_writes F now bundleId orderId k oi ni bundle cs b db = (r, db')"
  shows "(r = Inl SiblingsReadFailed \<or> r = Inl OriginalUpdateFailed) \<and> db' = db
       \<or> (r = Inl NumberUpdateFailed \<or> r = Inl InsertFailed)
           \<and> historial_bultos db' = historial_bultos db
           \<and> (\<exists>f. (\<forall>x. b_id (f x) = b_id x \<and> cantidad_laminas (f x) = jsonNumber (minusNumber (Num cs) k))
                  \<and> bultos db' = map (\<lambda>x. if b_id x = bundleId then f x else x) (bultos db))
       \<or> (r = Inl InsertNoId \<or> r = Inl SplitHistoryFailed)
           \<and> historial_bultos db' = historial_bultos db
           \<and> bultos db' = split_result_rows now bundleId orderId k oi ni bundle cs b db
       \<or> r = Inr ()"
proof -
  let ?o = "originalPayload (minusNumber (Num cs) k) oi"
  let ?n = "numberPayload b"
  have cmp: "map (\<lambda>r. if b_id r = bundleId then ?n r else r)
                 (map (\<lambda>r. if b_id r = bundleId then ?o r else r) (bultos db))
     = map (\<lambda>r. if b_id r = bundleId then ?n (?o r) else r) (bultos db)"
    by (induction "bultos db") auto
  have ids1: "map b_id (map (\<lambda>r. if b_id r = bundleId then ?o r else r) (bultos db))
       = map b_id (bultos db)"
    by (rule map_b_id_update) simp
  have ids2: "map b_id (map (\<lambda>r. if b_id r = bundleId then ?n (?o r) else r) (bultos db))
       = map b_id (bultos db)"
    by (rule map_b_id_update) simp
  have e1: "\<exists>f. (\<forall>x. b_id (f x) = b_id x \<and> cantidad_laminas (f x) = jsonNumber (minusNumber (Num cs) k))
        \<and> map (\<lambda>r. if b_id r = bundleId then ?o r else r) (bultos db)
          = map (\<lambda>x. if b_id x = bundleId then f x else x) (bultos db)"
    by (intro exI[of _ ?o]) simp
  have e2: "\<exists>f. (\<forall>x. b_id (f x) = b_id x \<and> cantidad_laminas (f x) = jsonNumber (minusNumber (Num cs) k))
        \<and> map (\<lambda>r. if b_id r = bundleId then ?n (?o r) else r) (bultos db)
          = map (\<lambda>x. if b_id x = bundleId then f x else x) (bultos db)"
    by (intro exI[of _ "\<lambda>r. ?n (?o r)"]) simp
  show ?thesis
    using assms e1 e2 ids1 ids2
    unfolding split_writes_def Let_def split_result_rows_def
    by (auto simp: cmp simp del: map_map split: if_splits)
qed

lemma split_checks_bundle:
  assumes "split_checks F bundleId orderId k oi ni db = Inr (bundle, cs, b)"
  shows "select_single (bultos db) bundleId = Some bundle \<and> cs = currentSheets bundle"
  using split_checks_Inr(2,4)[OF assms] by (simp add: currentSheets_def)

lemma split_result_rows_original:
  assumes "select_single (bultos db) bundleId = Some bundle"
  shows "\<exists>orig. select_single (split_result_rows now bundleId orderId k oi ni bundle cs b db)
                  bundleId = Some orig \<and> cantidad_laminas orig = jsonNumber (minusNumber (Num cs) k)"
proof -
  let ?f = "\<lambda>r. (if shouldNormalizeNumber bundle then numberPayload b else (\<lambda>r. r))
                   (originalPayload (minusNumber (Num cs) k) oi r)"
  have "fresh_id (map b_id (bultos db)) \<noteq> bundleId"
    using fresh_id_fresh[of "map b_id (bultos db)"] select_single_in_ids[OF assms] by auto
  then have "select_single (split_result_rows now bundleId orderId k oi ni bundle cs b db) bundleId
      = select_single (map (\<lambda>r. if b_id r = bundleId then ?f r else r) (bultos db)) bundleId"
    unfolding split_result_rows_def by (intro select_single_append_other) simp
  also have "\<dots> = map_option ?f (select_single (bultos db) bundleId)"
    by (rule select_single_map) simp
  finally show ?thesis using assms by simp
qed

text \<open>
  Claim C1 (as amended): a split that fails at a check, at either read or at the update of
  the original leaves the store exactly as it was. The writes are separate requests, so a
  failure of the number rewrite or of the insert leaves the original with its count
  reduced and no sibling, and a failure after the insert leaves both bundles written and
  no history entry. In every outcome, a store that has gained a bundle has the original's
  count reduced.
\<close>

theorem split_partial_application:
  assumes run: "splitBundle F now bundleId orderId k oi ni db = (r, db')"
  shows "(r \<in> {Inl SheetsNotPositive, Inl MissingIdentifiers, Inl BundleReadFailed,
               Inl WrongOrder, Inl SheetsTooLarge, Inl NoNumber, Inl SiblingsReadFailed,
               Inl OriginalUpdateFailed} \<longrightarrow> db' = db)
       \<and> (r = Inl NumberUpdateFailed \<or> r = Inl InsertFailed \<longrightarrow>
            (\<exists>bundle orig. select_single (bultos db) bundleId = Some bundle
               \<and> select_single (bultos db') bundleId = Some orig
               \<and> cantidad_laminas orig = jsonNumber (minusNumber (Num (currentSheets bundle)) k)
               \<and> map b_id (bultos db') = map b_id (bultos db)
               \<and> historial_bultos db' = historial_bultos db))
       \<and> (r = Inl InsertNoId \<or> r = Inl SplitHistoryFailed \<longrightarrow>
            length (bultos db') = Suc (length (bultos db))
            \<and> historial_bultos db' = historial_bultos db)
       \<and> (length (bultos db) < length (bultos db') \<longrightarrow>
            (\<exists>bundle orig. select_single (bultos db) bundleId = Some bundle
               \<and> select_single (bultos db') bundleId = Some orig
               \<and> cantidad_laminas orig = jsonNumber (minusNumber (Num (currentSheets bundle)) k)))"
proof (cases "split_checks F bundleId orderId k oi ni db")
  case (Inl e)
  then have "db' = db" using run by (simp add: splitBundle_def)
  moreover have "r = Inl e" using Inl run by (simp add: splitBundle_def)
  moreover have "e \<notin> {NumberUpdateFailed, InsertFailed, InsertNoId, SplitHistoryFailed}"
    using Inl by (auto simp: split_checks_def Let_def split: if_splits option.splits)
  ultimately show ?thesis by auto
next
  case (Inr t)
  obtain bundle' cs b where t: "t = (bundle', cs, b)" by (cases t)
  from Inr t have ch: "split_checks F bundleId orderId k oi ni db = Inr (bundle', cs, b)" by simp
  from split_checks_bundle[OF ch]
  have sel: "select_single (bultos db) bundleId = Some bundle'" and cs: "cs = currentSheets bundle'"
    by simp_all
  from run ch have wr: "split_writes F now bundleId orderId k oi ni bundle' cs b db = (r, db')"
    by (simp add: splitBundle_def)
  have reduced: "\<exists>orig. select_single (bultos db') bundleId = Some orig
                \<and> cantidad_laminas orig = jsonNumber (minusNumber (Num (currentSheets bundle')) k)"
    if "bultos db' = split_result_rows now bundleId orderId k oi ni bundle' cs b db"
    using split_result_rows_original[OF sel, of now orderId k oi ni cs b] that cs by simp
  have len: "length (split_result_rows now bundleId orderId k oi ni bundle' cs b db)
      = Suc (length (bultos db))"
    by (simp add: split_result_rows_def)
  from split_writes_outcomes[OF wr] show ?thesis
  proof (elim disjE)
    assume "(r = Inl SiblingsReadFailed \<or> r = Inl OriginalUpdateFailed) \<and> db' = db"
    then show ?thesis by auto
  next
    assume "(r = Inl NumberUpdateFailed \<or> r = Inl InsertFailed)
           \<and> historial_bultos db' = historial_bultos db
           \<and> (\<exists>f. (\<forall>x. b_id (f x) = b_id x \<and> cantidad_laminas (f x) = jsonNumber (minusNumber (Num cs) k))
                  \<and> bultos db' = map (\<lambda>x. if b_id x = bundleId then f x else x) (bultos db))"
    then obtain f where a: "r = Inl NumberUpdateFailed \<or> r = Inl InsertFailed"
      "historial_bultos db' = historial_bultos db"
      "\<forall>x. b_id (f x) = b_id x \<and> cantidad_laminas (f x) = jsonNumber (minusNumber (Num cs) k)"
      "bultos db' = map (\<lambda>x. if b_id x = bundleId then f x else x) (bultos db)"
      by blast
    have "select_single (bultos db') bundleId = map_option f (select_single (bultos db) bundleId)"
      unfolding a(4) using a(3) by (intro select_single_map) simp
    then have "select_single (bultos db') bundleId = Some (f bundle')" using sel by simp
    moreover have "cantidad_laminas (f bundle') = jsonNumber (minusNumber (Num (currentSheets bundle')) k)"
      using a(3) cs by simp
    moreover have "map b_id (bultos db') = map b_id (bultos db)"
      unfolding a(4) using a(3) by (intro map_b_id_update) simp
    moreover have "length (bultos db') = length (bultos db)" unfolding a(4) by simp
    ultimately show ?thesis using a(1,2) sel by auto
  next
    assume "(r = Inl InsertNoId \<or> r = Inl SplitHistoryFailed)
           \<and> historial_bultos db' = historial_bultos db
           \<and> bultos db' = split_result_rows now bundleId orderId k oi ni bundle' cs b db"
    then have a: "r = Inl InsertNoId \<or> r = Inl SplitHistoryFailed"
      "historial_bultos db' = historial_bultos db"
      "bultos db' = split_result_rows now bundleId orderId k oi ni bundle' cs b db"
      by simp_all
    from reduced[OF a(3)] len a sel show ?thesis by auto
  next
    assume a: "r = Inr ()"
    with wr have "bultos db' = split_result_rows now bundleId orderId k oi ni bundle' cs b db"
      by (intro split_writes_Inr(1)) simp
    from reduced[OF this] a sel show ?thesis by auto
  qed
qed

theorem split_partial_application_witness:
  "splitBundle (failingAt Split_UpdateOriginal) 5 1 1 (Num 40) (exampleIds ''a'') (exampleIds ''b'')
     storeA = (Inl OriginalUpdateFailed, storeA)"
proof -
  let ?run = "splitBundle (failingAt Split_UpdateOriginal) 5 1 1 (Num 40) (exampleIds ''a'')
     (exampleIds ''b'') storeA"
  have "fst ?run = Inl OriginalUpdateFailed"
    by (simp add: storeA_def failingAt_def split_eval)
  then have "?run = (Inl OriginalUpdateFailed, snd ?run)" by (simp add: prod_eq_iff)
  from split_partial_application[OF this] have "snd ?run = storeA" by simp
  with \<open>fst ?run = Inl OriginalUpdateFailed\<close> show ?thesis by (simp add: prod_eq_iff)
qed

text \<open>
  Claim C1 as stated fails: when the insert of the new bundle fails, the original has
  already been rewritten (60 of its 100 sheets are left, its number is promoted to 1001)
  and no sibling exists.
\<close>

theorem split_atomicity_counterexample:
  "fst (splitBundle (failingAt Split_Insert) 5 1 1 (Num 40) (exampleIds ''a'') (exampleIds ''b'') storeA)
     = Inl InsertFailed
   \<and> map cantidad_laminas (bultos storeA) = [Some 100, Some 50]
   \<and> map cantidad_laminas (bultos (snd (splitBundle (failingAt Split_Insert) 5 1 1 (Num 40)
         (exampleIds ''a'') (exampleIds ''b'') storeA))) = [Some 60, Some 50]
   \<and> map numero_bulto (bultos (snd (splitBundle (failingAt Split_Insert) 5 1 1 (Num 40)
         (exampleIds ''a'') (exampleIds ''b'') storeA))) = [Some 1001, Some 2]"
  by (simp add: storeA_def failingAt_def split_eval)

section \<open>The aggregator and the action utilizar\<close>

lemma deactivate_deactivate:
  "deactivate P (deactivate Q ords) = deactivate (\<lambda>i. P i \<or> Q i) ords"
  by (induction ords) (auto simp: deactivate_def)

lemma deactivate_none: "deactivate (\<lambda>i. False) ords = ords"
  by (simp add: deactivate_def)

lemma set_uniqueOf [simp]: "set (uniqueOf xs) = set xs"
  by (simp add: uniqueOf_def)

lemma checkOrder_frame:
  "bultos (checkOrder F oid db) = bultos db"
  "historial_bultos (checkOrder F oid db) = historial_bultos db"
  "ubicaciones (checkOrder F oid db) = ubicaciones db"
  by (simp_all add: checkOrder_def Let_def)

lemma checkOrder_orders:
  "ordenes_corte (checkOrder F oid db)
     = deactivate (\<lambda>i. i = oid \<and> orderCloses F (bultos db) oid) (ordenes_corte db)"
proof (cases "orderCloses F (bultos db) oid")
  case True
  then show ?thesis
    by (simp add: checkOrder_def Let_def orderCloses_def deactivate_def)
next
  case False
  then have "checkOrder F oid db = db"
    by (auto simp: checkOrder_def Let_def orderCloses_def)
  then show ?thesis using False by (simp add: deactivate_def)
qed

lemma fold_checkOrder:
  "bultos (fold (checkOrder F) oids db) = bultos db
   \<and> historial_bultos (fold (checkOrder F) oids db) = historial_bultos db
   \<and> ubicaciones (fold (checkOrder F) oids db) = ubicaciones db
   \<and> ordenes_corte (fold (checkOrder F) oids db)
       = deactivate (\<lambda>i. i \<in> set oids \<and> orderCloses F (bultos db) i) (ordenes_corte db)"
proof (induction oids arbitrary: db)
  case Nil
  show ?case by (simp add: deactivate_none)
next
  case (Cons oid oids)
  have "(\<lambda>i. (i \<in> set oids \<and> orderCloses F (bultos db) i) \<or> i = oid \<and> orderCloses F (bultos db) oid)
      = (\<lambda>i. i \<in> set (oid # oids) \<and> orderCloses F (bultos db) i)"
    by auto
  then show ?case
    using Cons[of "checkOrder F oid db"]
    by (simp add: checkOrder_frame checkOrder_orders deactivate_deactivate)
qed

lemma orderCloses_allUsed:
  "orderCloses F (bultos db) oid \<longleftrightarrow>
     \<not> F (Agg_FetchOrderBundles oid) \<and> \<not> F (Agg_UpdateOrder oid)
     \<and> (\<exists>r \<in> set (bultos db). orden_corte_id r = oid) \<and> allBundlesUsed db oid"
  by (auto simp: orderCloses_def allBundlesUsed_def list_all_iff list_ex_iff filter_empty_conv)

lemma checkAndUpdateOrderStatus_frame:
  "bultos (checkAndUpdateOrderStatus F ids db) = bultos db"
  "historial_bultos (checkAndUpdateOrderStatus F ids db) = historial_bultos db"
  "ubicaciones (checkAndUpdateOrderStatus F ids db) = ubicaciones db"
  using fold_checkOrder[of F _ db]
  by (simp_all add: checkAndUpdateOrderStatus_def Let_def)

lemma checkAndUpdateOrderStatus_orders:
  "ordenes_corte (checkAndUpdateOrderStatus F ids db)
     = deactivate (\<lambda>i. orderExamined F ids db i \<and> allBundlesUsed db i) (ordenes_corte db)"
proof (cases "F Agg_FetchBundles")
  case True
  then show ?thesis
    by (simp add: checkAndUpdateOrderStatus_def orderExamined_def deactivate_none)
next
  case False
  have "(\<lambda>i. i \<in> set (uniqueOf (map orden_corte_id (filter (\<lambda>r. b_id r \<in> set ids) (bultos db))))
              \<and> orderCloses F (bultos db) i)
      = (\<lambda>i. orderExamined F ids db i \<and> allBundlesUsed db i)"
    using False by (auto simp: orderCloses_allUsed orderExamined_def)
  then show ?thesis
    using False fold_checkOrder[of F _ db]
    by (simp add: checkAndUpdateOrderStatus_def Let_def)
qed

lemma update_bultos_in_fields [simp]:
  "bultos (update_bultos_in ids f db) = map (\<lambda>r. if b_id r \<in> set ids then f r else r) (bultos db)"
  "ordenes_corte (update_bultos_in ids f db) = ordenes_corte db"
  "ubicaciones (update_bultos_in ids f db) = ubicaciones db"
  "historial_bultos (update_bultos_in ids f db) = historial_bultos db"
  by (simp_all add: update_bultos_in_def)

text \<open>The action \<^verbatim>\<open>utilizar\<close>, step by step.\<close>

lemma apply_use:
  "applyBundleAction F now bundleIds Utilizar dest wo db =
     (if bundleIds = [] then (Inl EmptySelection, db)
      else if F Act_FetchStates then (Inl ValidateFetchFailed, db)
      else if \<exists>r \<in> set (bultos db). b_id r \<in> set bundleIds \<and> estado r \<noteq> Some Asignado
      then (Inl NotAllAssigned, db)
      else if F Act_Update then (Inl UpdateFailed, db)
      else if F Act_History
      then (Inl HistoryFailed, update_bultos_in bundleIds (\<lambda>r. r\<lparr>estado := Some Usado\<rparr>) db)
      else (Inr (),
            checkAndUpdateOrderStatus F bundleIds
              ((update_bultos_in bundleIds (\<lambda>r. r\<lparr>estado := Some Usado\<rparr>) db)
                 \<lparr>historial_bultos := historial_bultos db @
                    actionHistoryPayload (fresh_id (map h_id (historial_bultos db))) now
                      bundleIds Utilizar None None\<rparr>)))"
proof -
  have v: "validateUse F bundleIds db =
      (if F Act_FetchStates then Inl ValidateFetchFailed
       else if \<exists>r \<in> set (bultos db). b_id r \<in> set bundleIds \<and> estado r \<noteq> Some Asignado
       then Inl NotAllAssigned else Inr ())"
    by (auto simp: validateUse_def Let_def filter_empty_conv)
  have p: "updatePayload None (Some Usado) = (\<lambda>r. r\<lparr>estado := Some Usado\<rparr>)"
    by (rule ext) (simp add: updatePayload_def)
  show ?thesis
    unfolding applyBundleAction_def v
    by (auto simp: applyWrites_def Let_def bundleStatusByAction_def p actionHistoryPayload_def)
qed

text \<open>
  Claim C2 (as amended): for a non-empty batch and a run in which no store request of the
  action fails, \<^verbatim>\<open>utilizar\<close> succeeds if and only if every stored bundle whose id is
  targeted has status assigned. In every run, success implies that condition; a batch
  with a targeted bundle that is not assigned fails with the store untouched; a failed
  action appends no history entry, and it changes no status unless the failure is the
  history append, which comes after the status update.
\<close>

theorem use_batch_validation:
  "(bundleIds \<noteq> [] \<and> \<not> F Act_FetchStates \<and> \<not> F Act_Update \<and> \<not> F Act_History \<longrightarrow>
      ((fst (applyBundleAction F now bundleIds Utilizar dest wo db) = Inr ())
        \<longleftrightarrow> (\<forall>r \<in> set (bultos db). b_id r \<in> set bundleIds \<longrightarrow> estado r = Some Asignado)))
   \<and> (fst (applyBundleAction F now bundleIds Utilizar dest wo db) = Inr () \<longrightarrow>
        bundleIds \<noteq> []
        \<and> (\<forall>r \<in> set (bultos db). b_id r \<in> set bundleIds \<longrightarrow> estado r = Some Asignado)
        \<and> bultos (snd (applyBundleAction F now bundleIds Utilizar dest wo db))
            = map (\<lambda>r. if b_id r \<in> set bundleIds then r\<lparr>estado := Some Usado\<rparr> else r) (bultos db)
        \<and> map bulto_id (drop (length (historial_bultos db))
              (historial_bultos (snd (applyBundleAction F now bundleIds Utilizar dest wo db))))
            = bundleIds)
   \<and> ((\<exists>r \<in> set (bultos db). b_id r \<in> set bundleIds \<and> estado r \<noteq> Some Asignado) \<longrightarrow>
        (\<exists>e. applyBundleAction F now bundleIds Utilizar dest wo db = (Inl e, db)))
   \<and> (\<forall>e db'. applyBundleAction F now bundleIds Utilizar dest wo db = (Inl e, db') \<longrightarrow>
        historial_bultos db' = historial_bultos db \<and> (e \<noteq> HistoryFailed \<longrightarrow> db' = db))"
proof (intro conjI impI allI)
  assume "bundleIds \<noteq> [] \<and> \<not> F Act_FetchStates \<and> \<not> F Act_Update \<and> \<not> F Act_History"
  then show "(fst (applyBundleAction F now bundleIds Utilizar dest wo db) = Inr ())
        \<longleftrightarrow> (\<forall>r \<in> set (bultos db). b_id r \<in> set bundleIds \<longrightarrow> estado r = Some Asignado)"
    by (auto simp: apply_use)
next
  assume ok: "fst (applyBundleAction F now bundleIds Utilizar dest wo db) = Inr ()"
  then show "bundleIds \<noteq> []" by (auto simp: apply_use split: if_splits)
  from ok show "\<forall>r \<in> set (bultos db). b_id r \<in> set bundleIds \<longrightarrow> estado r = Some Asignado"
    by (auto simp: apply_use split: if_splits)
  from ok show "bultos (snd (applyBundleAction F now bundleIds Utilizar dest wo db))
      = map (\<lambda>r. if b_id r \<in> set bundleIds then r\<lparr>estado := Some Usado\<rparr> else r) (bultos db)"
    by (auto simp: apply_use checkAndUpdateOrderStatus_frame split: if_splits)
  have "map bulto_id (actionHistoryPayload k now bundleIds Utilizar None None) = bundleIds" for k
    by (simp add: actionHistoryPayload_def comp_def case_prod_unfold map_snd_enumerate[unfolded comp_def])
  with ok show "map bulto_id (drop (length (historial_bultos db))
      (historial_bultos (snd (applyBundleAction F now bundleIds Utilizar dest wo db)))) = bundleIds"
    by (auto simp: apply_use checkAndUpdateOrderStatus_frame split: if_splits)
next
  assume "\<exists>r \<in> set (bultos db). b_id r \<in> set bundleIds \<and> estado r \<noteq> Some Asignado"
  then show "\<exists>e. applyBundleAction F now bundleIds Utilizar dest wo db = (Inl e, db)"
    by (simp add: apply_use)
next
  fix e db'
  assume a: "applyBundleAction F now bundleIds Utilizar dest wo db = (Inl e, db')"
  then show "historial_bultos db' = historial_bultos db"
    by (auto simp: apply_use split: if_splits)
  show "db' = db" if "e \<noteq> HistoryFailed"
    using a that by (auto simp: apply_use split: if_splits)
qed

lemmas action_eval =
  applyBundleAction_def applyWrites_def validateUse_def resolveDestination_def
  normalizeLocationCode_def ensureLocationMap_def setLocations_def uniqueOf_def
  isValidLocationCode_def LOCATION_CODES_def toUpperCase_def upperChar_def trim_def
  isWhiteSpace_def updatePayload_def actionHistoryPayload_def bundleStatusByAction_def
  update_bultos_in_def checkAndUpdateOrderStatus_def checkOrder_def fresh_id_def
  exampleStore_def exampleRow_def noFaults_def failingAt_def Let_def

theorem use_batch_validation_witness:
  "fst (applyBundleAction noFaults 9 [2, 3] Utilizar None None storeB) = Inr ()
   \<and> map estado (bultos (snd (applyBundleAction noFaults 9 [2, 3] Utilizar None None storeB)))
       = [Some Usado, Some Usado, Some Usado]
   \<and> map bulto_id (historial_bultos
        (snd (applyBundleAction noFaults 9 [2, 3] Utilizar None None storeB))) = [2, 3]
   \<and> applyBundleAction noFaults 9 [1, 2] Utilizar None None storeB = (Inl NotAllAssigned, storeB)"
proof -
  have a: "\<forall>r \<in> set (bultos storeB). b_id r \<in> set [2, 3] \<longrightarrow> estado r = Some Asignado"
    by (simp add: storeB_def exampleStore_def exampleRow_def)
  have h: "historial_bultos storeB = []" by (simp add: storeB_def exampleStore_def)
  have n: "fst (applyBundleAction noFaults 9 [1, 2] Utilizar None None storeB) = Inl NotAllAssigned"
    by (simp add: apply_use storeB_def exampleStore_def exampleRow_def noFaults_def
          failingAt_def)
  then have n': "applyBundleAction noFaults 9 [1, 2] Utilizar None None storeB
      = (Inl NotAllAssigned, snd (applyBundleAction noFaults 9 [1, 2] Utilizar None None storeB))"
    by (simp add: prod_eq_iff)
  note t = use_batch_validation[of "[2, 3]" noFaults 9 None None storeB]
  note u = use_batch_validation[of "[1, 2]" noFaults 9 None None storeB]
  have ok: "fst (applyBundleAction noFaults 9 [2, 3] Utilizar None None storeB) = Inr ()"
    using conjunct1[OF t] a by (simp add: noFaults_def)
  note t2 = conjunct1[OF conjunct2[OF t], rule_format, OF ok]
  have e: "map estado (bultos (snd (applyBundleAction noFaults 9 [2, 3] Utilizar None None storeB)))
       = [Some Usado, Some Usado, Some Usado]"
    using t2 by (simp add: storeB_def exampleStore_def exampleRow_def)
  have hh: "map bulto_id (historial_bultos
        (snd (applyBundleAction noFaults 9 [2, 3] Utilizar None None storeB))) = [2, 3]"
    using t2 h by simp
  note u4 = conjunct2[OF conjunct2[OF conjunct2[OF u]], rule_format, OF n']
  have "snd (applyBundleAction noFaults 9 [1, 2] Utilizar None None storeB) = storeB"
    using u4 by simp
  with n have "applyBundleAction noFaults 9 [1, 2] Utilizar None None storeB
      = (Inl NotAllAssigned, storeB)" by (simp add: prod_eq_iff)
  with ok e hh show ?thesis by simp
qed

text \<open>
  Claim C2 as stated fails in two ways: an empty batch is rejected although none of its
  bundles lacks the status assigned; and when the history append fails the action fails
  after the status of the batch has been changed.
\<close>

theorem use_batch_counterexample:
  "applyBundleAction noFaults 9 [] Utilizar None None storeB = (Inl EmptySelection, storeB)
   \<and> fst (applyBundleAction (failingAt Act_History) 9 [2, 3] Utilizar None None storeB)
       = Inl HistoryFailed
   \<and> map estado (bultos storeB) = [Some Usado, Some Asignado, Some Asignado]
   \<and> map estado (bultos
        (snd (applyBundleAction (failingAt Act_History) 9 [2, 3] Utilizar None None storeB)))
       = [Some Usado, Some Usado, Some Usado]"
  by (simp add: storeB_def action_eval)

section \<open>Order status over sequences of operations\<close>

lemma onlyDeactivated_refl: "onlyDeactivated ords ords"
  by (simp add: onlyDeactivated_def list_all2_refl)

lemma onlyDeactivated_deactivate: "onlyDeactivated ords (deactivate P ords)"
  by (induction ords) (auto simp: onlyDeactivated_def deactivate_def)

lemma onlyDeactivated_trans:
  "onlyDeactivated a b \<Longrightarrow> onlyDeactivated b c \<Longrightarrow> onlyDeactivated a c"
proof -
  assume ab: "onlyDeactivated a b" and bc: "onlyDeactivated b c"
  show ?thesis
    unfolding onlyDeactivated_def
    by (rule list_all2_trans[OF _ ab[unfolded onlyDeactivated_def] bc[unfolded onlyDeactivated_def]])
       auto
qed

lemma ensureLocationMap_frame:
  "ordenes_corte (snd (ensureLocationMap F codes db)) = ordenes_corte db"
  "bultos (snd (ensureLocationMap F codes db)) = bultos db"
  "historial_bultos (snd (ensureLocationMap F codes db)) = historial_bultos db"
  by (simp_all add: ensureLocationMap_def Let_def)

lemma resolveDestination_frame:
  "ordenes_corte (snd (resolveDestination F dest db)) = ordenes_corte db"
  "bultos (snd (resolveDestination F dest db)) = bultos db"
  "historial_bultos (snd (resolveDestination F dest db)) = historial_bultos db"
proof -
  have "ordenes_corte (snd (resolveDestination F dest db)) = ordenes_corte db
      \<and> bultos (snd (resolveDestination F dest db)) = bultos db
      \<and> historial_bultos (snd (resolveDestination F dest db)) = historial_bultos db"
  proof (cases "normalizeLocationCode dest")
    case None
    then show ?thesis by (simp add: resolveDestination_def)
  next
    case (Some c)
    obtain res db1 where e: "ensureLocationMap F [c] db = (res, db1)"
      by (cases "ensureLocationMap F [c] db")
    then have "db1 = snd (ensureLocationMap F [c] db)" by simp
    then have f: "ordenes_corte db1 = ordenes_corte db" "bultos db1 = bultos db"
      "historial_bultos db1 = historial_bultos db"
      by (simp_all add: ensureLocationMap_frame)
    show ?thesis
      using Some e f by (simp add: resolveDestination_def split: sum.splits option.splits)
  qed
  then show "ordenes_corte (snd (resolveDestination F dest db)) = ordenes_corte db"
    "bultos (snd (resolveDestination F dest db)) = bultos db"
    "historial_bultos (snd (resolveDestination F dest db)) = historial_bultos db"
    by simp_all
qed

lemma applyWrites_orders:
  "onlyDeactivated (ordenes_corte db)
     (ordenes_corte (snd (applyWrites F now bundleIds act locationId orderNumber db)))"
proof -
  have "onlyDeactivated (ordenes_corte db) (ordenes_corte (checkAndUpdateOrderStatus F bundleIds db'))"
    if "ordenes_corte db' = ordenes_corte db" for db'
    using that onlyDeactivated_deactivate[of "ordenes_corte db"]
    by (simp add: checkAndUpdateOrderStatus_orders)
  then show ?thesis
    by (simp add: applyWrites_def Let_def onlyDeactivated_refl)
qed

lemma applyBundleAction_orders:
  "onlyDeactivated (ordenes_corte db)
     (ordenes_corte (snd (applyBundleAction F now bundleIds act dest wo db)))"
proof (cases "resolveDestination F dest db")
  case (Pair res db1)
  then have o: "ordenes_corte db1 = ordenes_corte db"
    using resolveDestination_frame(1)[of F dest db] by simp
  show ?thesis
    using Pair o applyWrites_orders[of db F now bundleIds act None wo]
      applyWrites_orders[of db1 F now bundleIds act _ wo]
    by (auto simp: applyBundleAction_def onlyDeactivated_refl split: sum.splits)
qed

lemma split_writes_orders:
  "ordenes_corte (snd (split_writes F now bundleId orderId k oi ni bdl cs b db))
     = ordenes_corte db"
  by (simp add: split_writes_def Let_def)

lemma splitBundle_orders:
  "ordenes_corte (snd (splitBundle F now bundleId orderId k oi ni db)) = ordenes_corte db"
  by (simp add: splitBundle_def split_writes_orders split: sum.splits prod.splits)

lemma perform_orders: "onlyDeactivated (ordenes_corte db) (ordenes_corte (perform req db))"
  by (cases req) (simp_all add: applyBundleAction_orders splitBundle_orders onlyDeactivated_refl)

lemma performAll_orders:
  "onlyDeactivated (ordenes_corte db) (ordenes_corte (performAll reqs db))"
  unfolding performAll_def
proof (induction reqs arbitrary: db)
  case Nil
  show ?case by (simp add: onlyDeactivated_refl)
next
  case (Cons req reqs)
  show ?case
    using onlyDeactivated_trans[OF perform_orders[of db req] Cons[of "perform req db"]]
    by simp
qed

text \<open>
  Claim C6: the aggregator switches an order to inactive exactly when it reaches the order
  (the order owns an affected bundle and none of the aggregator's requests for it fails)
  and every bundle of the order is used, none available or assigned; it changes nothing
  else. Over every sequence of actions and splits, in every run, the order rows keep
  their identity, an inactive order stays inactive and no order becomes active.
\<close>

theorem order_status_aggregation:
  "ordenes_corte (checkAndUpdateOrderStatus F bundleIds db)
     = map (\<lambda>ord. if orderExamined F bundleIds db (o_id ord) \<and> allBundlesUsed db (o_id ord)
                  then ord\<lparr>activo := Some False\<rparr> else ord) (ordenes_corte db)
   \<and> bultos (checkAndUpdateOrderStatus F bundleIds db) = bultos db
   \<and> historial_bultos (checkAndUpdateOrderStatus F bundleIds db) = historial_bultos db
   \<and> length (ordenes_corte (performAll reqs db)) = length (ordenes_corte db)
   \<and> (\<forall>i < length (ordenes_corte db).
         o_id (ordenes_corte (performAll reqs db) ! i) = o_id (ordenes_corte db ! i)
         \<and> (activo (ordenes_corte db ! i) = Some False
              \<longrightarrow> activo (ordenes_corte (performAll reqs db) ! i) = Some False)
         \<and> (activo (ordenes_corte (performAll reqs db) ! i) = Some True
              \<longrightarrow> activo (ordenes_corte db ! i) = Some True))"
proof (intro conjI allI impI)
  show "ordenes_corte (checkAndUpdateOrderStatus F bundleIds db)
     = map (\<lambda>ord. if orderExamined F bundleIds db (o_id ord) \<and> allBundlesUsed db (o_id ord)
                  then ord\<lparr>activo := Some False\<rparr> else ord) (ordenes_corte db)"
    by (simp add: checkAndUpdateOrderStatus_orders deactivate_def)
  show "bultos (checkAndUpdateOrderStatus F bundleIds db) = bultos db"
    by (rule checkAndUpdateOrderStatus_frame)
  show "historial_bultos (checkAndUpdateOrderStatus F bundleIds db) = historial_bultos db"
    by (rule checkAndUpdateOrderStatus_frame)
  have d: "list_all2 (\<lambda>ord ord'. ord' = ord \<or> ord' = ord\<lparr>activo := Some False\<rparr>)
             (ordenes_corte db) (ordenes_corte (performAll reqs db))"
    using performAll_orders[of db reqs] by (simp add: onlyDeactivated_def)
  then show len: "length (ordenes_corte (performAll reqs db)) = length (ordenes_corte db)"
    by (simp add: list_all2_lengthD)
  fix i assume i: "i < length (ordenes_corte db)"
  from list_all2_nthD[OF d i]
  have c: "ordenes_corte (performAll reqs db) ! i = ordenes_corte db ! i
         \<or> ordenes_corte (performAll reqs db) ! i = (ordenes_corte db ! i)\<lparr>activo := Some False\<rparr>" .
  then show "o_id (ordenes_corte (performAll reqs db) ! i) = o_id (ordenes_corte db ! i)"
    by auto
  from c show "activo (ordenes_corte (performAll reqs db) ! i) = Some False"
    if "activo (ordenes_corte db ! i) = Some False" using that by auto
  from c show "activo (ordenes_corte db ! i) = Some True"
    if "activo (ordenes_corte (performAll reqs db) ! i) = Some True" using that by auto
qed

lemma performAll_append: "performAll (xs @ ys) db = performAll ys (performAll xs db)"
  by (simp add: performAll_def)

lemma storeC_rows:
  "bultos storeC = [exampleRow 1 1 100 Usado, exampleRow 2 2 50 Usado, exampleRow 3 3 50 Asignado]"
  "ordenes_corte storeC = [\<lparr>o_id = 1, numero_orden = ''1001'', cantidad_bultos = Some 2,
                            activo = Some True\<rparr>]"
  "historial_bultos storeC = []"
  by (simp_all add: storeC_def exampleStore_def)

lemma exampleRow_fields [simp]:
  "b_id (exampleRow i n k st) = i" "orden_corte_id (exampleRow i n k st) = 1"
  "estado (exampleRow i n k st) = Some st" "numero_bulto (exampleRow i n k st) = Some n"
  "cantidad_laminas (exampleRow i n k st) = Some k"
  "(exampleRow i n k st)\<lparr>estado := Some st'\<rparr> = exampleRow i n k st'"
  by (simp_all add: exampleRow_def)

lemma apply_assign_rows:
  assumes "bundleIds \<noteq> []" and "trim w \<noteq> []" and "\<not> F Act_Update" and "\<not> F Act_History"
  shows "bultos (snd (applyBundleAction F now bundleIds Asignar dest (Some w) db))
       = map (\<lambda>r. if b_id r \<in> set bundleIds then r\<lparr>estado := Some Asignado\<rparr> else r) (bultos db)"
proof -
  have p: "updatePayload None (Some Asignado) = (\<lambda>r. r\<lparr>estado := Some Asignado\<rparr>)"
    by (rule ext) (simp add: updatePayload_def)
  show ?thesis
    using assms
    by (simp add: applyBundleAction_def applyWrites_def Let_def bundleStatusByAction_def p
          checkAndUpdateOrderStatus_frame)
qed

theorem order_status_aggregation_witness:
  "map activo (ordenes_corte (checkAndUpdateOrderStatus noFaults [3] storeC)) = [Some True]
   \<and> map activo (ordenes_corte (performAll [Action noFaults 9 [3] Utilizar None None] storeC))
       = [Some False]
   \<and> map estado (bultos (performAll [Action noFaults 9 [3] Utilizar None None,
          Action noFaults 10 [1] Asignar None (Some ''A'')] storeC))
       = [Some Asignado, Some Usado, Some Usado]
   \<and> map activo (ordenes_corte (performAll [Action noFaults 9 [3] Utilizar None None,
          Action noFaults 10 [1] Asignar None (Some ''A'')] storeC))
       = [Some False]"
proof -
  let ?use = "Action noFaults 9 [3] Utilizar None None"
  let ?assign = "Action noFaults 10 [1] Asignar None (Some ''A'')"
  define db1 where "db1 = performAll [?use] storeC"
  note a = order_status_aggregation[of noFaults "[3]" storeC "[]"]
  have nu: "\<not> allBundlesUsed storeC 1"
    by (simp add: allBundlesUsed_def storeC_rows)
  have w1: "map activo (ordenes_corte (checkAndUpdateOrderStatus noFaults [3] storeC)) = [Some True]"
    using conjunct1[OF a] nu by (simp add: storeC_rows)
  let ?db' = "(update_bultos_in [3] (\<lambda>r. r\<lparr>estado := Some Usado\<rparr>) storeC)
                 \<lparr>historial_bultos := historial_bultos storeC @
                    actionHistoryPayload (fresh_id (map h_id (historial_bultos storeC))) 9
                      [3] Utilizar None None\<rparr>"
  have d1: "db1 = checkAndUpdateOrderStatus noFaults [3] ?db'"
    by (simp add: db1_def performAll_def apply_use storeC_rows noFaults_def)
  have rows': "bultos ?db' = [exampleRow 1 1 100 Usado, exampleRow 2 2 50 Usado, exampleRow 3 3 50 Usado]"
    by (simp add: storeC_rows)
  have ex: "orderExamined noFaults [3] ?db' 1"
    unfolding orderExamined_def rows' by (simp add: noFaults_def)
  have au: "allBundlesUsed ?db' 1"
    unfolding allBundlesUsed_def rows' by simp
  note b = order_status_aggregation[of noFaults "[3]" ?db' "[]"]
  have w2: "map activo (ordenes_corte db1) = [Some False]"
    unfolding d1 using conjunct1[OF b] ex au by (simp add: storeC_rows)
  have rows1: "bultos db1 = [exampleRow 1 1 100 Usado, exampleRow 2 2 50 Usado, exampleRow 3 3 50 Usado]"
    unfolding d1 using rows' by (simp add: checkAndUpdateOrderStatus_frame)
  have two: "performAll [?use, ?assign] storeC = performAll [?assign] db1"
    using performAll_append[of "[?use]" "[?assign]" storeC] by (simp add: db1_def)
  have "bultos (performAll [?assign] db1)
      = map (\<lambda>r. if b_id r \<in> set [1] then r\<lparr>estado := Some Asignado\<rparr> else r) (bultos db1)"
    unfolding performAll_def
    using apply_assign_rows[of "[1]" "''A''" noFaults 10 None db1]
    by (simp add: trim_def isWhiteSpace_def noFaults_def)
  then have w3: "map estado (bultos (performAll [?assign] db1))
       = [Some Asignado, Some Usado, Some Usado]"
    by (simp add: rows1)
  note c = order_status_aggregation[of noFaults "[3]" db1 "[?assign]"]
  obtain ord where o1: "ordenes_corte db1 = [ord]" and oa: "activo ord = Some False"
    using w2 by (cases "ordenes_corte db1") auto
  have "0 < length (ordenes_corte db1)" using o1 by simp
  from conjunct2[OF conjunct2[OF conjunct2[OF conjunct2[OF c]]], rule_format, OF this]
  have k: "activo (ordenes_corte (performAll [?assign] db1) ! 0) = Some False"
    using o1 oa by simp
  have l2: "length (ordenes_corte (performAll [?assign] db1)) = 1"
    using conjunct1[OF conjunct2[OF conjunct2[OF conjunct2[OF c]]]] o1 by simp
  have w4: "map activo (ordenes_corte (performAll [?assign] db1)) = [Some False]"
  proof (cases "ordenes_corte (performAll [?assign] db1)")
    case Nil
    with l2 show ?thesis by simp
  next
    case (Cons x xs)
    with l2 k show ?thesis by simp
  qed
  show ?thesis using w1 w2 w3 w4 unfolding two by (simp add: db1_def)
qed

section \<open>Destination of the action mover\<close>

lemma trim_Nil [simp]: "trim [] = []"
  by (simp add: trim_def)

lemma location_code_nonempty: "c \<in> set LOCATION_CODES \<Longrightarrow> c \<noteq> []"
  by (auto simp: LOCATION_CODES_def)

lemma normalizeLocationCode_Some:
  "normalizeLocationCode v = Some c \<longleftrightarrow>
     (\<exists>s. v = Some s \<and> c = toUpperCase (trim s) \<and> c \<in> set LOCATION_CODES)"
proof (cases v)
  case None
  then show ?thesis by (simp add: normalizeLocationCode_def)
next
  case (Some s)
  show ?thesis
  proof (cases "toUpperCase (trim s) \<in> set LOCATION_CODES")
    case True
    then have ne: "toUpperCase (trim s) \<noteq> []" by (rule location_code_nonempty)
    then have "s \<noteq> []" by (auto simp: toUpperCase_def)
    with Some True ne show ?thesis
      by (auto simp: normalizeLocationCode_def isValidLocationCode_def Let_def)
  next
    case False
    with Some show ?thesis
      by (auto simp: normalizeLocationCode_def isValidLocationCode_def Let_def)
  qed
qed

lemma normalizeLocationCode_None:
  "normalizeLocationCode v = None \<longleftrightarrow>
     \<not> (\<exists>s. v = Some s \<and> toUpperCase (trim s) \<in> set LOCATION_CODES)"
proof (cases "normalizeLocationCode v")
  case None
  then show ?thesis using normalizeLocationCode_Some[of v] by auto
next
  case (Some a)
  then have "\<exists>s. v = Some s \<and> toUpperCase (trim s) \<in> set LOCATION_CODES"
    using normalizeLocationCode_Some[of v a] by blast
  with Some show ?thesis by simp
qed

text \<open>What \<^verbatim>\<open>setLocations\<close> leaves in the map for one code.\<close>

lemma setLocations_keep:
  "\<forall>l \<in> set rows. codigo l \<noteq> Some c \<Longrightarrow> setLocations rows m c = m c"
  unfolding setLocations_def
  by (induction rows arbitrary: m) (auto split: option.splits)

lemma setLocations_found:
  "setLocations rows m c = Some i \<Longrightarrow>
     m c = Some i \<or> (\<exists>l \<in> set rows. codigo l = Some c \<and> u_id l = i)"
  unfolding setLocations_def
proof (induction rows arbitrary: m)
  case Nil
  then show ?case by simp
next
  case (Cons l rows)
  let ?m = "case codigo l of None \<Rightarrow> m | Some c' \<Rightarrow> if c' = [] then m else m(c' \<mapsto> u_id l)"
  from Cons.prems have "fold (\<lambda>l m. case codigo l of None \<Rightarrow> m
            | Some c \<Rightarrow> if c = [] then m else m(c \<mapsto> u_id l)) rows ?m c = Some i"
    by simp
  from Cons.IH[OF this]
  have "?m c = Some i \<or> (\<exists>l \<in> set rows. codigo l = Some c \<and> u_id l = i)" .
  then show ?case
    by (auto split: option.splits if_splits)
qed

lemma setLocations_single:
  "c \<noteq> [] \<Longrightarrow> setLocations [\<lparr>u_id = k, codigo = Some c\<rparr>] m c = Some k"
  by (simp add: setLocations_def)

text \<open>Get-or-create for one code, whatever the code is.\<close>

lemma ensureLocationMap_single:
  assumes "c \<noteq> []" and "\<not> F Loc_Fetch" and "\<not> F Loc_Insert"
  shows "\<exists>m i. ensureLocationMap F [c] db = (Inr m, snd (ensureLocationMap F [c] db))
             \<and> m c = Some i
             \<and> (\<exists>l \<in> set (ubicaciones (snd (ensureLocationMap F [c] db))).
                   codigo l = Some c \<and> u_id l = i)
             \<and> (\<exists>added. ubicaciones (snd (ensureLocationMap F [c] db)) = ubicaciones db @ added)"
proof -
  let ?existing = "filter (\<lambda>l. case codigo l of None \<Rightarrow> False | Some c' \<Rightarrow> c' \<in> set [c])
                     (ubicaciones db)"
  let ?m = "setLocations ?existing Map.empty"
  show ?thesis
  proof (cases "?m c")
    case None
    let ?k = "fresh_id (map u_id (ubicaciones db))"
    have r: "ensureLocationMap F [c] db =
        (Inr (setLocations [\<lparr>u_id = ?k, codigo = Some c\<rparr>] ?m),
         db\<lparr>ubicaciones := ubicaciones db @ [\<lparr>u_id = ?k, codigo = Some c\<rparr>]\<rparr>)"
      using assms None by (simp add: ensureLocationMap_def uniqueOf_def Let_def)
    show ?thesis
      unfolding r using setLocations_single[OF assms(1), of ?k ?m] by simp
  next
    case (Some i)
    have r: "ensureLocationMap F [c] db = (Inr ?m, db)"
      using assms Some by (simp add: ensureLocationMap_def uniqueOf_def Let_def)
    from setLocations_found[OF Some]
    have "\<exists>l \<in> set ?existing. codigo l = Some c \<and> u_id l = i" by simp
    then have "\<exists>l \<in> set (ubicaciones db). codigo l = Some c \<and> u_id l = i" by auto
    then show ?thesis unfolding r using Some by simp
  qed
qed

lemma apply_move_invalid:
  assumes "normalizeLocationCode dest = None"
  shows "applyBundleAction F now bundleIds Mover dest wo db
       = (Inl (if bundleIds = [] then EmptySelection else InvalidDestination), db)"
  using assms by (simp add: applyBundleAction_def resolveDestination_def)

lemma apply_move_valid:
  assumes "normalizeLocationCode dest = Some c" and "bundleIds \<noteq> []"
    and "\<not> F Loc_Fetch" and "\<not> F Loc_Insert" and "\<not> F Act_Update" and "\<not> F Act_History"
  shows "fst (applyBundleAction F now bundleIds Mover dest wo db) = Inr ()"
proof -
  from assms(1) have "c \<in> set LOCATION_CODES" by (auto simp: normalizeLocationCode_Some)
  then have "c \<noteq> []" by (rule location_code_nonempty)
  from ensureLocationMap_single[OF this assms(3,4), of db]
  obtain m i db1 where e: "ensureLocationMap F [c] db = (Inr m, db1)" and m: "m c = Some i"
    by blast
  then have "resolveDestination F dest db = (Inr i, db1)"
    using assms(1) by (simp add: resolveDestination_def)
  then show ?thesis
    using assms(2,5,6)
    by (simp add: applyBundleAction_def applyWrites_def Let_def bundleStatusByAction_def)
qed

text \<open>
  Claim C9: the action \<^verbatim>\<open>mover\<close> succeeds only for a destination that, trimmed and in
  upper case, is one of the ten codes C1 to C10; for every other destination (also none at
  all) it returns a validation error and leaves the store untouched; for a listed code,
  a non-empty batch and a run without failed requests it succeeds. The location lookup
  itself is get-or-create: for any non-empty code it returns an id and the store then
  holds a location with that code and id.
\<close>

theorem move_destination_validation:
  "(fst (applyBundleAction F now bundleIds Mover dest wo db) = Inr ()
      \<longrightarrow> (\<exists>s. dest = Some s \<and> toUpperCase (trim s) \<in> set LOCATION_CODES))
   \<and> (\<not> (\<exists>s. dest = Some s \<and> toUpperCase (trim s) \<in> set LOCATION_CODES)
      \<longrightarrow> applyBundleAction F now bundleIds Mover dest wo db
            = (Inl (if bundleIds = [] then EmptySelection else InvalidDestination), db))
   \<and> ((\<exists>s. dest = Some s \<and> toUpperCase (trim s) \<in> set LOCATION_CODES) \<and> bundleIds \<noteq> []
        \<and> \<not> F Loc_Fetch \<and> \<not> F Loc_Insert \<and> \<not> F Act_Update \<and> \<not> F Act_History
      \<longrightarrow> fst (applyBundleAction F now bundleIds Mover dest wo db) = Inr ())
   \<and> (c \<noteq> [] \<and> \<not> F Loc_Fetch \<and> \<not> F Loc_Insert
      \<longrightarrow> (\<exists>m i. fst (ensureLocationMap F [c] db) = Inr m \<and> m c = Some i
             \<and> (\<exists>l \<in> set (ubicaciones (snd (ensureLocationMap F [c] db))).
                   codigo l = Some c \<and> u_id l = i)))"
proof (intro conjI impI)
  assume ok: "fst (applyBundleAction F now bundleIds Mover dest wo db) = Inr ()"
  show "\<exists>s. dest = Some s \<and> toUpperCase (trim s) \<in> set LOCATION_CODES"
  proof (rule ccontr)
    assume "\<not> (\<exists>s. dest = Some s \<and> toUpperCase (trim s) \<in> set LOCATION_CODES)"
    then have "normalizeLocationCode dest = None" by (simp add: normalizeLocationCode_None)
    from apply_move_invalid[OF this, of F now bundleIds wo db] ok show False by simp
  qed
next
  assume "\<not> (\<exists>s. dest = Some s \<and> toUpperCase (trim s) \<in> set LOCATION_CODES)"
  then have "normalizeLocationCode dest = None" by (simp add: normalizeLocationCode_None)
  then show "applyBundleAction F now bundleIds Mover dest wo db
      = (Inl (if bundleIds = [] then EmptySelection else InvalidDestination), db)"
    by (rule apply_move_invalid)
next
  assume h: "(\<exists>s. dest = Some s \<and> toUpperCase (trim s) \<in> set LOCATION_CODES) \<and> bundleIds \<noteq> []
        \<and> \<not> F Loc_Fetch \<and> \<not> F Loc_Insert \<and> \<not> F Act_Update \<and> \<not> F Act_History"
  then obtain c' where "normalizeLocationCode dest = Some c'"
    using normalizeLocationCode_Some[of dest] by blast
  then show "fst (applyBundleAction F now bundleIds Mover dest wo db) = Inr ()"
    using h by (intro apply_move_valid) simp_all
next
  assume h: "c \<noteq> [] \<and> \<not> F Loc_Fetch \<and> \<not> F Loc_Insert"
  then have "c \<noteq> []" "\<not> F Loc_Fetch" "\<not> F Loc_Insert" by simp_all
  from ensureLocationMap_single[OF this, of db]
  obtain m i where "ensureLocationMap F [c] db = (Inr m, snd (ensureLocationMap F [c] db))"
    "m c = Some i"
    "\<exists>l \<in> set (ubicaciones (snd (ensureLocationMap F [c] db))). codigo l = Some c \<and> u_id l = i"
    by blast
  then show "\<exists>m i. fst (ensureLocationMap F [c] db) = Inr m \<and> m c = Some i
             \<and> (\<exists>l \<in> set (ubicaciones (snd (ensureLocationMap F [c] db))).
                   codigo l = Some c \<and> u_id l = i)"
    by (metis fst_conv)
qed

theorem move_destination_validation_witness:
  "toUpperCase (trim '' c2 '') = ''C2''
   \<and> fst (applyBundleAction noFaults 9 [1] Mover (Some '' c2 '') None storeD) = Inr ()
   \<and> applyBundleAction noFaults 9 [1] Mover (Some ''D4'') None storeD
       = (Inl InvalidDestination, storeD)
   \<and> applyBundleAction noFaults 9 [1] Mover (Some ''C11'') None storeD
       = (Inl InvalidDestination, storeD)
   \<and> applyBundleAction noFaults 9 [1] Mover None None storeD = (Inl InvalidDestination, storeD)
   \<and> (\<exists>m i. fst (ensureLocationMap noFaults [''D4''] storeD) = Inr m \<and> m ''D4'' = Some i)"
proof -
  have u: "toUpperCase (trim '' c2 '') = ''C2''"
    by code_simp
  have d4: "toUpperCase (trim ''D4'') = ''D4''"
    by code_simp
  have c11: "toUpperCase (trim ''C11'') = ''C11''"
    by code_simp
  note a = move_destination_validation[of noFaults 9 "[1]" "Some '' c2 ''" None storeD "''D4''"]
  note b = move_destination_validation[of noFaults 9 "[1]" "Some ''D4''" None storeD "''D4''"]
  note c = move_destination_validation[of noFaults 9 "[1]" "Some ''C11''" None storeD "''D4''"]
  note d = move_destination_validation[of noFaults 9 "[1]" None None storeD "''D4''"]
  have 1: "fst (applyBundleAction noFaults 9 [1] Mover (Some '' c2 '') None storeD) = Inr ()"
    using conjunct1[OF conjunct2[OF conjunct2[OF a]]] u
    by (simp add: LOCATION_CODES_def noFaults_def)
  have 2: "applyBundleAction noFaults 9 [1] Mover (Some ''D4'') None storeD
       = (Inl InvalidDestination, storeD)"
    using conjunct1[OF conjunct2[OF b]] d4 by (simp add: LOCATION_CODES_def)
  have 3: "applyBundleAction noFaults 9 [1] Mover (Some ''C11'') None storeD
       = (Inl InvalidDestination, storeD)"
    using conjunct1[OF conjunct2[OF c]] c11 by (simp add: LOCATION_CODES_def)
  have 4: "applyBundleAction noFaults 9 [1] Mover None None storeD = (Inl InvalidDestination, storeD)"
    using conjunct1[OF conjunct2[OF d]] by simp
  have 5: "\<exists>m i. fst (ensureLocationMap noFaults [''D4''] storeD) = Inr m \<and> m ''D4'' = Some i"
    using conjunct2[OF conjunct2[OF conjunct2[OF a]]] by (simp add: noFaults_def) blast
  show ?thesis using u 1 2 3 4 5 by simp
qed

section \<open>Work order of a projected bundle\<close>

lemma workOrder_mapBundle:
  "workOrder (mapBundle bundle) =
     (if estado (row bundle) = Some Disponible then ''Sin orden''
      else case find hasWorkOrder
                  (rev (sortHistory (case historial bundle of None \<Rightarrow> [] | Some es \<Rightarrow> es))) of
             None \<Rightarrow> ''Sin orden''
           | Some e \<Rightarrow> (case numero_trabajo (entry e) of None \<Rightarrow> ''Sin orden'' | Some w \<Rightarrow> w))"
  by (simp add: mapBundle_def Let_def)

lemma find_append_list:
  "find P (xs @ ys) = (case find P xs of None \<Rightarrow> find P ys | Some x \<Rightarrow> Some x)"
  by (induction xs) auto

lemma find_None_all: "find P xs = None \<longleftrightarrow> (\<forall>x \<in> set xs. \<not> P x)"
  by (induction xs) auto

lemma find_rev_last:
  assumes "P e" and "\<forall>x \<in> set post. \<not> P x"
  shows "find P (rev (pre @ [e] @ post)) = Some e"
proof -
  have "find P (rev post) = None" using assms(2) by (simp add: find_None_all)
  then show ?thesis using assms(1) by (simp add: find_append_list)
qed

lemma sortHistory_sorted: "sorted (map (\<lambda>e. timeOf (fecha_hora (entry e))) (sortHistory h))"
  by (simp add: sortHistory_def)

lemma sortHistory_set: "set (sortHistory h) = set h"
  by (simp add: sortHistory_def)

lemma sortHistory_stable:
  "filter (\<lambda>e. timeOf (fecha_hora (entry e)) = t) (sortHistory h)
     = filter (\<lambda>e. timeOf (fecha_hora (entry e)) = t) h"
  by (simp add: sortHistory_def sort_key_stable)

lemma hasWorkOrder_Some:
  "hasWorkOrder e \<longleftrightarrow> (\<exists>w. numero_trabajo (entry e) = Some w \<and> trim w \<noteq> [])"
  by (cases "numero_trabajo (entry e)") (auto simp: hasWorkOrder_def trim_def)

lemma latest_is_last:
  assumes e: "e \<in> set h" "hasWorkOrder e"
    and late: "\<forall>x \<in> set h. hasWorkOrder x \<and> x \<noteq> e
                 \<longrightarrow> timeOf (fecha_hora (entry x)) < timeOf (fecha_hora (entry e))"
  shows "find hasWorkOrder (rev (sortHistory h)) = Some e"
proof -
  have "\<exists>x \<in> set (sortHistory h). hasWorkOrder x" using e by (auto simp: sortHistory_set)
  from split_list_last_prop[OF this] obtain pre e' post where
    d: "sortHistory h = pre @ e' # post" and p: "hasWorkOrder e'"
    and n: "\<forall>z \<in> set post. \<not> hasWorkOrder z" by blast
  have f: "find hasWorkOrder (rev (sortHistory h)) = Some e'"
    using find_rev_last[OF p n, of pre] d by simp
  have "e' = e"
  proof (rule ccontr)
    assume ne: "e' \<noteq> e"
    have "e' \<in> set h" using d sortHistory_set[of h] by auto
    with late p ne have lt: "timeOf (fecha_hora (entry e')) < timeOf (fecha_hora (entry e))"
      by blast
    have "e \<in> set (pre @ e' # post)" using e(1) d sortHistory_set[of h] by simp
    with ne n e(2) have "e \<in> set pre" by auto
    moreover have "sorted (map (\<lambda>e. timeOf (fecha_hora (entry e))) (pre @ e' # post))"
      using sortHistory_sorted[of h] d by simp
    ultimately have "timeOf (fecha_hora (entry e)) \<le> timeOf (fecha_hora (entry e'))"
      by (auto simp: sorted_append)
    with lt show False by simp
  qed
  with f show ?thesis by simp
qed

text \<open>
  Claim C5: the projected work order of a bundle is ``Sin orden'' when its status is
  available; otherwise it is the work-order number of the latest history entry that
  carries a non-blank work-order number (the last such entry in the order of the
  timestamps, entries with equal timestamps in the order they were stored), and ``Sin
  orden'' when no entry carries one. A later entry without a work order, such as a move,
  does not change it.
\<close>

theorem work_order_projection:
  "(estado (row bundle) = Some Disponible \<longrightarrow> workOrder (mapBundle bundle) = ''Sin orden'')
   \<and> (estado (row bundle) \<noteq> Some Disponible \<and> historial bundle = Some h
        \<and> e \<in> set h \<and> numero_trabajo (entry e) = Some w \<and> trim w \<noteq> []
        \<and> (\<forall>x \<in> set h. hasWorkOrder x \<and> x \<noteq> e
               \<longrightarrow> timeOf (fecha_hora (entry x)) < timeOf (fecha_hora (entry e)))
      \<longrightarrow> workOrder (mapBundle bundle) = w)
   \<and> (estado (row bundle) \<noteq> Some Disponible \<and> historial bundle = Some h
        \<and> sortHistory h = pre @ [e] @ post
        \<and> numero_trabajo (entry e) = Some w \<and> trim w \<noteq> []
        \<and> (\<forall>x \<in> set post. \<not> hasWorkOrder x)
      \<longrightarrow> workOrder (mapBundle bundle) = w)
   \<and> (historial bundle = Some h \<and> (\<forall>x \<in> set h. \<not> hasWorkOrder x)
      \<longrightarrow> workOrder (mapBundle bundle) = ''Sin orden'')
   \<and> (historial bundle = Some h
      \<longrightarrow> sorted (map (\<lambda>e. timeOf (fecha_hora (entry e))) (sortHistory h))
          \<and> set (sortHistory h) = set h
          \<and> (\<forall>t. filter (\<lambda>e. timeOf (fecha_hora (entry e)) = t) (sortHistory h)
                  = filter (\<lambda>e. timeOf (fecha_hora (entry e)) = t) h))"
proof (intro conjI impI allI)
  assume "estado (row bundle) = Some Disponible"
  then show "workOrder (mapBundle bundle) = ''Sin orden''" by (simp add: workOrder_mapBundle)
next
  assume a: "estado (row bundle) \<noteq> Some Disponible \<and> historial bundle = Some h
        \<and> e \<in> set h \<and> numero_trabajo (entry e) = Some w \<and> trim w \<noteq> []
        \<and> (\<forall>x \<in> set h. hasWorkOrder x \<and> x \<noteq> e
               \<longrightarrow> timeOf (fecha_hora (entry x)) < timeOf (fecha_hora (entry e)))"
  then have "hasWorkOrder e" by (auto simp: hasWorkOrder_Some)
  with a have "find hasWorkOrder (rev (sortHistory h)) = Some e"
    by (intro latest_is_last) simp_all
  with a show "workOrder (mapBundle bundle) = w" by (simp add: workOrder_mapBundle)
next
  assume a: "estado (row bundle) \<noteq> Some Disponible \<and> historial bundle = Some h
        \<and> sortHistory h = pre @ [e] @ post
        \<and> numero_trabajo (entry e) = Some w \<and> trim w \<noteq> []
        \<and> (\<forall>x \<in> set post. \<not> hasWorkOrder x)"
  then have "hasWorkOrder e" by (auto simp: hasWorkOrder_Some)
  with a have "find hasWorkOrder (rev (pre @ [e] @ post)) = Some e"
    by (intro find_rev_last) simp_all
  with a show "workOrder (mapBundle bundle) = w" by (simp add: workOrder_mapBundle)
next
  assume a: "historial bundle = Some h \<and> (\<forall>x \<in> set h. \<not> hasWorkOrder x)"
  then have "find hasWorkOrder (rev (sortHistory h)) = None"
    by (simp add: find_None_all sortHistory_set)
  with a show "workOrder (mapBundle bundle) = ''Sin orden''" by (simp add: workOrder_mapBundle)
next
  show "sorted (map (\<lambda>e. timeOf (fecha_hora (entry e))) (sortHistory h))"
    by (rule sortHistory_sorted)
  show "set (sortHistory h) = set h" by (rule sortHistory_set)
  fix t
  show "filter (\<lambda>e. timeOf (fecha_hora (entry e)) = t) (sortHistory h)
      = filter (\<lambda>e. timeOf (fecha_hora (entry e)) = t) h"
    by (rule sortHistory_stable)
qed

theorem work_order_projection_witness:
  "workOrder (mapBundle (exampleJoined Asignado
      [historyRow Asignar (Some ''A'') 1, historyRow Mover None 2])) = ''A''
   \<and> workOrder (mapBundle (exampleJoined Disponible
      [historyRow Asignar (Some ''A'') 1, historyRow Mover None 2])) = ''Sin orden''
   \<and> workOrder (mapBundle (exampleJoined Usado [historyRow Mover None 2])) = ''Sin orden''"
proof -
  let ?a = "historyRow Asignar (Some ''A'') 1"
  let ?m = "historyRow Mover None 2"
  have t: "trim ''A'' \<noteq> []" by (simp add: trim_def isWhiteSpace_def)
  have nm: "\<not> hasWorkOrder ?m" by (simp add: hasWorkOrder_def historyRow_def)
  have f: "estado (row (exampleJoined st h)) = Some st"
    "historial (exampleJoined st h) = Some h" for st h
    by (simp_all add: exampleJoined_def exampleRow_def)
  have n: "numero_trabajo (entry ?a) = Some ''A''" by (simp add: historyRow_def)
  note w1 = work_order_projection[of "exampleJoined Asignado [?a, ?m]" "[?a, ?m]" ?a "''A''" "[]" "[]"]
  note w2 = work_order_projection[of "exampleJoined Disponible [?a, ?m]" "[?a, ?m]" ?a "''A''" "[]" "[]"]
  note w3 = work_order_projection[of "exampleJoined Usado [?m]" "[?m]" ?a "''A''" "[]" "[]"]
  have 1: "workOrder (mapBundle (exampleJoined Asignado [?a, ?m])) = ''A''"
    using conjunct1[OF conjunct2[OF w1]] t nm n by (simp add: f)
  have 2: "workOrder (mapBundle (exampleJoined Disponible [?a, ?m])) = ''Sin orden''"
    using conjunct1[OF w2] by (simp add: f)
  have 3: "workOrder (mapBundle (exampleJoined Usado [?m])) = ''Sin orden''"
    using conjunct1[OF conjunct2[OF conjunct2[OF conjunct2[OF w3]]]] nm by (simp add: f)
  show ?thesis using 1 2 3 by simp
qed

section \<open>Display names of split siblings\<close>

text \<open>
  Claim C8 fails on a list in which a bundle without a number has an id that reads like
  the base number of another bundle: the grouping key is the base number written as a
  string, or the id when there is no number, and the two meet. The bundle of base 7 is
  alone in its sibling group, and the bundle with id 7 has no base number, yet both are
  renamed as if they were siblings.
\<close>

theorem display_names_key_collision:
  "map rawNumber [exampleBundle ''1'' (Some 7) 905, exampleBundle ''7'' None 0] = [Some 7, None]
   \<and> map groupKey [exampleBundle ''1'' (Some 7) 905, exampleBundle ''7'' None 0] = [''7'', ''7'']
   \<and> map name [exampleBundle ''1'' (Some 7) 905, exampleBundle ''7'' None 0]
       = [''Bulto #7'', ''Bulto sin n'' @ [CHR 0xC3, CHR 0xBA] @ ''mero'']
   \<and> map name (applyBundleDisplayNames
         [exampleBundle ''1'' (Some 7) 905, exampleBundle ''7'' None 0])
       = [''Bulto #7 - 2'', ''Bulto sin n'' @ [CHR 0xC3, CHR 0xBA] @ ''mero - 1'']"
  by code_simp

text \<open>On lists without such a meeting of keys the names are as claimed, for instance:\<close>

lemma display_names_example:
  "map name (applyBundleDisplayNames
     [exampleBundle ''1'' (Some 7002) 905, exampleBundle ''2'' (Some 3) 0,
      exampleBundle ''3'' (Some 7001) 900, exampleBundle ''4'' (Some 7003) 910])
   = [''Bulto #7 - 2'', ''Bulto #3'', ''Bulto #7 - 1'', ''Bulto #7 - 3'']"
  by code_simp

end
